theory Spec2Isabelle
  imports Main "HOL-Library.Sublist" "HOL-Library.AList"
begin

section \<open>JavaScript values used by the runtime module\<close>

text \<open>
  Strings are \<^typ>\<open>string\<close>. The string methods the module calls are written out
  one by one, with the separator or needle as the source passes it. Every separator and
  needle of the module is ASCII, so splitting and searching by \<^typ>\<open>char\<close> gives what
  JavaScript gives on the same text.
\<close>

definition includes_str :: "string \<Rightarrow> string \<Rightarrow> bool" where
  \<comment> \<open>\<^verbatim>\<open>s.includes(t)\<close>\<close>
  "includes_str s t = sublist t s"

definition endsWith :: "string \<Rightarrow> string \<Rightarrow> bool" where
  \<comment> \<open>\<^verbatim>\<open>s.endsWith(t)\<close>\<close>
  "endsWith s t = suffix t s"

fun split_on :: "char \<Rightarrow> string \<Rightarrow> string list" where
  \<comment> \<open>\<^verbatim>\<open>s.split(c)\<close> for a one-character separator; never the empty array\<close>
  "split_on c [] = [[]]"
| "split_on c (x # xs) =
     (if x = c then [] # split_on c xs
      else (case split_on c xs of [] \<Rightarrow> [[x]] | p # ps \<Rightarrow> (x # p) # ps))"

fun lastIndexOf :: "string \<Rightarrow> char \<Rightarrow> int" where
  \<comment> \<open>\<^verbatim>\<open>s.lastIndexOf(c)\<close>: \<open>-1\<close> when \<open>c\<close> does not occur\<close>
  "lastIndexOf [] c = - 1"
| "lastIndexOf (x # xs) c =
     (let i = lastIndexOf xs c
      in if 0 \<le> i then i + 1 else if x = c then 0 else - 1)"

definition slice0 :: "string \<Rightarrow> int \<Rightarrow> string" where
  \<comment> \<open>\<^verbatim>\<open>s.slice(0, e)\<close> for \<open>e \<ge> 0\<close>, the only way the module calls it\<close>
  "slice0 s e = take (nat e) s"

definition lower_char :: "char \<Rightarrow> char" where
  "lower_char c =
     (case map_of (zip ''ABCDEFGHIJKLMNOPQRSTUVWXYZ'' ''abcdefghijklmnopqrstuvwxyz'') c of
        None \<Rightarrow> c
      | Some l \<Rightarrow> l)"

definition toLowerCase :: "string \<Rightarrow> string" where
  \<comment> \<open>on a URL pathname, which is ASCII\<close>
  "toLowerCase s = map lower_char s"

datatype js_error = TypeError string | Error string

fun message :: "js_error \<Rightarrow> string" where
  "message (TypeError m) = m"
| "message (Error m) = m"

datatype console_entry = ConsoleLog string | ConsoleError string string | QErrors js_error string string

section \<open>The document as \<^verbatim>\<open>injectCss\<close> sees it\<close>

text \<open>
  The failure handler that \<^verbatim>\<open>injectCss\<close> installs is the arrow function
  \<^verbatim>\<open>() => { link.onerror = null; link.href = `${basePath}qore.css`; ... }\<close>.
  It closes over \<^verbatim>\<open>basePath\<close> and over the link it is installed on, so it is
  represented by the captured base path and applied to that link.
\<close>

datatype handler = FallbackTo string

text \<open>
  An element that \<^verbatim>\<open>querySelectorAll('link')\<close> finds: \<open>node\<close> is the identity of the
  element object, \<open>href_attr\<close> is what \<^verbatim>\<open>getAttribute('href')\<close> returns (\<open>None\<close> for
  \<^verbatim>\<open>null\<close>). The selector matches by element name only, so the element need not be an
  \<^verbatim>\<open>HTMLLinkElement\<close>: \<open>html\<close> is false for an element named \<^verbatim>\<open>link\<close> of another
  namespace (one made by \<^verbatim>\<open>createElementNS\<close>, say), which has attributes and
  \<^verbatim>\<open>remove()\<close> like every element but no \<^verbatim>\<open>href\<close> property.
\<close>

record link =
  node :: nat
  html :: bool
  rel :: string
  type_attr :: string
  href_attr :: "string option"
  onerror :: "handler option"

record script =
  src :: string
  data_qorecss :: bool

text \<open>
  The document: \<open>head\<close> lists the link elements under \<^verbatim>\<open>document.head\<close> in
  document order and is \<open>None\<close> when \<^verbatim>\<open>document.head\<close> is \<^verbatim>\<open>null\<close>;
  \<open>scripts\<close> lists all script elements in document order; \<open>next_node\<close> is the
  identity that the next \<^verbatim>\<open>createElement\<close> hands out. The two functions are the
  browser's URL parser at this document's base URL: \<open>resolveURL a\<close> is the value of
  the \<^verbatim>\<open>href\<close> property of a link whose attribute is \<open>a\<close>, and \<open>pathnameURL s\<close> is
  \<^verbatim>\<open>new URL(s, document.baseURI).pathname\<close>, \<open>None\<close> when the constructor throws.
\<close>

record document =
  currentScript :: "script option"
  scripts :: "script list"
  head :: "link list option"
  next_node :: nat
  resolveURL :: "string \<Rightarrow> string"
  pathnameURL :: "string \<Rightarrow> string option"

definition href :: "document \<Rightarrow> link \<Rightarrow> string option" where
  \<comment> \<open>the \<^verbatim>\<open>href\<close> property: \<^verbatim>\<open>undefined\<close> (\<open>None\<close>) on an element that is no
      \<^verbatim>\<open>HTMLLinkElement\<close>, empty without the attribute, else the resolved URL\<close>
  "href d l =
     (if html l
      then Some (case href_attr l of None \<Rightarrow> [] | Some a \<Rightarrow> resolveURL d a)
      else None)"

definition href_text :: "document \<Rightarrow> link \<Rightarrow> string" where
  \<comment> \<open>\<^verbatim>\<open>${l.href}\<close> inside a template literal\<close>
  "href_text d l = (case href d l of None \<Rightarrow> ''undefined'' | Some h \<Rightarrow> h)"

text \<open>
  What leaves a JavaScript function: the value it returns or the exception it throws,
  together with the document and the console lines as they are at that moment.
\<close>

datatype 'a completion = Returns 'a | Throws js_error

record 'a effect =
  completion :: "'a completion"
  doc :: document
  console :: "console_entry list"

definition null_head :: js_error where
  \<comment> \<open>\<^verbatim>\<open>document.head.querySelectorAll\<close> on a null head, in the engine's words\<close>
  "null_head =
     TypeError (''Cannot read properties of null (reading '' @ [CHR 0x27] @
                ''querySelectorAll'' @ [CHR 0x27] @ '')'')"

definition undefined_href :: js_error where
  \<comment> \<open>\<^verbatim>\<open>l.href.includes\<close> when \<^verbatim>\<open>l.href\<close> is undefined, in the engine's words\<close>
  "undefined_href =
     TypeError (''Cannot read properties of undefined (reading '' @ [CHR 0x27] @
                ''includes'' @ [CHR 0x27] @ '')'')"

definition href_includes :: "document \<Rightarrow> link \<Rightarrow> string \<Rightarrow> js_error + bool" where
  \<comment> \<open>\<^verbatim>\<open>l.href.includes(s)\<close>\<close>
  "href_includes d l s =
     (case href d l of
        None \<Rightarrow> Inl undefined_href
      | Some h \<Rightarrow> Inr (includes_str h s))"

fun filter_js :: "('a \<Rightarrow> js_error + bool) \<Rightarrow> 'a list \<Rightarrow> js_error + 'a list" where
  \<comment> \<open>\<^verbatim>\<open>Array.prototype.filter\<close> with a callback that may throw: the first exception
      ends the call\<close>
  "filter_js p [] = Inr []"
| "filter_js p (x # xs) =
     (case p x of
        Inl e \<Rightarrow> Inl e
      | Inr b \<Rightarrow>
          (case filter_js p xs of
             Inl e \<Rightarrow> Inl e
           | Inr ys \<Rightarrow> Inr (if b then x # ys else ys)))"

section \<open>\<^verbatim>\<open>injectCss\<close>\<close>

definition cssFile :: string where
  "cssFile = ''core.5c7df4d0.min.css''"

definition is_hexlow :: "char \<Rightarrow> bool" where
  \<comment> \<open>the character class \<^verbatim>\<open>[a-f0-9]\<close>\<close>
  "is_hexlow c = (c \<in> set ''abcdef0123456789'')"

definition strip_prefix :: "string \<Rightarrow> string \<Rightarrow> string option" where
  "strip_prefix p s = (if prefix p s then Some (drop (length p) s) else None)"

definition coreRegex :: "string \<Rightarrow> bool" where
  \<comment> \<open>\<^verbatim>\<open>/^core(?:\.[a-f0-9]+)?\.min\.css$/.test(s)\<close>\<close>
  "coreRegex s =
     (case strip_prefix ''core'' s of
        None \<Rightarrow> False
      | Some r \<Rightarrow>
          r = ''.min.css'' \<or>
          (case r of
             [] \<Rightarrow> False
           | c # r' \<Rightarrow>
               c = CHR ''.'' \<and> takeWhile is_hexlow r' \<noteq> [] \<and>
               dropWhile is_hexlow r' = ''.min.css''))"

definition link_file :: "string \<Rightarrow> string" where
  \<comment> \<open>\<^verbatim>\<open>(href.split('/').pop() || '').split('?')[0].split('#')[0]\<close>\<close>
  "link_file h =
     hd (split_on CHR ''#'' (hd (split_on CHR ''?'' (last (split_on CHR ''/'' h)))))"

definition raw_href :: "link \<Rightarrow> string" where
  \<comment> \<open>\<^verbatim>\<open>l.getAttribute('href') || ''\<close>\<close>
  "raw_href l = (case href_attr l of None \<Rightarrow> [] | Some a \<Rightarrow> a)"

definition outdated :: "link \<Rightarrow> bool" where
  \<comment> \<open>\<^verbatim>\<open>coreRegex.test(file) && file !== cssFile\<close>\<close>
  "outdated l = (let file = link_file (raw_href l) in coreRegex file \<and> file \<noteq> cssFile)"

definition href_contains :: "document \<Rightarrow> link \<Rightarrow> string \<Rightarrow> bool" where
  \<comment> \<open>\<^verbatim>\<open>l.href.includes(s)\<close> returns true\<close>
  "href_contains d l s = (href_includes d l s = Inr True)"

definition is_fallback :: "document \<Rightarrow> link \<Rightarrow> bool" where
  \<comment> \<open>\<^verbatim>\<open>l.href.includes('qore.css')\<close> holds\<close>
  "is_fallback d l = href_contains d l ''qore.css''"

definition is_hashed :: "document \<Rightarrow> link \<Rightarrow> bool" where
  \<comment> \<open>\<^verbatim>\<open>l.href.includes(cssFile)\<close> holds\<close>
  "is_hashed d l = href_contains d l cssFile"

definition is_index_js :: "document \<Rightarrow> script \<Rightarrow> bool" where
  \<comment> \<open>the callback of \<^verbatim>\<open>scripts.find\<close>, its inner \<^verbatim>\<open>catch\<close> returning false\<close>
  "is_index_js d s =
     (case pathnameURL d (src s) of
        None \<Rightarrow> False
      | Some p \<Rightarrow> endsWith (toLowerCase p) ''index.js'')"

definition scriptEl :: "document \<Rightarrow> script option" where
  "scriptEl d =
     (let el = (case currentScript d of
                  Some s \<Rightarrow> Some s
                | None \<Rightarrow> List.find (is_index_js d) (scripts d))
      in case el of
           Some s \<Rightarrow> Some s
         | None \<Rightarrow> List.find data_qorecss (scripts d))"

definition scriptSrc :: "document \<Rightarrow> string" where
  \<comment> \<open>\<^verbatim>\<open>scriptEl && scriptEl.src ? scriptEl.src : ''\<close>\<close>
  "scriptSrc d = (case scriptEl d of None \<Rightarrow> [] | Some s \<Rightarrow> src s)"

definition basePath :: "document \<Rightarrow> string" where
  "basePath d =
     (let s = scriptSrc d
      in if s \<noteq> [] then slice0 s (lastIndexOf s CHR ''/'' + 1) else [])"

definition remove_outdated :: "link list \<Rightarrow> link list" where
  \<comment> \<open>the first \<^verbatim>\<open>forEach\<close>: every outdated link is removed\<close>
  "remove_outdated ls = filter (\<lambda>l. \<not> outdated l) ls"

definition remove_fallbacks :: "document \<Rightarrow> link list \<Rightarrow> link list" where
  \<comment> \<open>\<^verbatim>\<open>fallbacks.forEach(l => l.remove())\<close>, once \<^verbatim>\<open>fallbacks\<close> has been collected\<close>
  "remove_fallbacks d ls = filter (\<lambda>l. \<not> is_fallback d l) ls"

definition hashedLinks :: "document \<Rightarrow> link list \<Rightarrow> link list" where
  "hashedLinks d ls = filter (is_hashed d) ls"

fun remove_duplicates :: "document \<Rightarrow> link list \<Rightarrow> link list" where
  \<comment> \<open>\<^verbatim>\<open>hashedLinks.slice(1).forEach(l => l.remove())\<close>: the first hashed link stays\<close>
  "remove_duplicates d [] = []"
| "remove_duplicates d (l # ls) =
     (if is_hashed d l then l # filter (\<lambda>x. \<not> is_hashed d x) ls
      else l # remove_duplicates d ls)"

definition new_link :: "document \<Rightarrow> link" where
  \<comment> \<open>the element built in the \<^verbatim>\<open>!existing\<close> branch, by \<^verbatim>\<open>createElement('link')\<close>\<close>
  "new_link d =
     \<lparr> node = next_node d,
       html = True,
       rel = ''stylesheet'',
       type_attr = ''text/css'',
       href_attr = Some (basePath d @ cssFile),
       onerror = Some (FallbackTo (basePath d)) \<rparr>"

definition link_text :: string where
  \<comment> \<open>a link element inside a template literal\<close>
  "link_text = ''[object HTMLLinkElement]''"

text \<open>
  The body of the \<^verbatim>\<open>try\<close> block. Two steps of it can throw. The first is
  \<^verbatim>\<open>document.head.querySelectorAll\<close> on a null head, before any change of the document.
  The second is \<^verbatim>\<open>l.href.includes\<close> in the callback of a \<^verbatim>\<open>filter\<close>, on an element
  without an \<^verbatim>\<open>href\<close> property: by then the first \<^verbatim>\<open>forEach\<close> has removed the outdated
  links, and the document at the throw is the document without them. The \<^verbatim>\<open>filter\<close>
  that collects the fallbacks ends before any of them is removed.
\<close>

definition injectCss_try :: "document \<Rightarrow> link effect" where
  "injectCss_try d =
     (let log1 = [ConsoleLog (''injectCss basePath '' @ basePath d)]
      in case head d of
           None \<Rightarrow> \<lparr> completion = Throws null_head, doc = d, console = log1 \<rparr>
         | Some links \<Rightarrow>
             (let removed1 = filter outdated links;
                  log2 = map (\<lambda>l. ConsoleLog (''injectCss removed outdated '' @ href_text d l))
                           removed1;
                  freshLinks = remove_outdated links
              in case filter_js (\<lambda>l. href_includes d l ''qore.css'') freshLinks of
                   Inl e \<Rightarrow>
                     \<lparr> completion = Throws e,
                       doc = d\<lparr> head := Some freshLinks \<rparr>,
                       console = log1 @ log2 \<rparr>
                 | Inr fallbacks \<Rightarrow>
                     (let log3 = map (\<lambda>l. ConsoleLog (''injectCss removed fallback '' @
                                                         href_text d l)) fallbacks;
                          rest = remove_fallbacks d freshLinks
                      in case filter_js (\<lambda>l. href_includes d l cssFile) rest of
                           Inl e \<Rightarrow>
                             \<lparr> completion = Throws e,
                               doc = d\<lparr> head := Some rest \<rparr>,
                               console = log1 @ log2 @ log3 \<rparr>
                         | Inr hashed \<Rightarrow>
                             (let log4 = (if 1 < length hashed
                                          then map (\<lambda>l. ConsoleLog
                                                     (''injectCss removed duplicate '' @
                                                      href_text d l)) (tl hashed)
                                          else []);
                                  kept = remove_duplicates d rest;
                                  log5 = [ConsoleLog (''injectCss is returning '' @ link_text)]
                              in case hashed of
                                   [] \<Rightarrow>
                                     \<lparr> completion = Returns (new_link d),
                                       doc = d\<lparr> head := Some (kept @ [new_link d]),
                                                next_node := Suc (next_node d) \<rparr>,
                                       console = log1 @ log2 @ log3 @ log4 @ log5 \<rparr>
                                 | existing # _ \<Rightarrow>
                                     \<lparr> completion = Returns existing,
                                       doc = d\<lparr> head := Some kept \<rparr>,
                                       console = log1 @ log2 @ log3 @ log4 @ log5 \<rparr>))))"

text \<open>
  \<^verbatim>\<open>injectCss\<close> itself: the entry log, the \<^verbatim>\<open>try\<close> block, and the \<^verbatim>\<open>catch\<close> that
  writes the message of the exception to \<^verbatim>\<open>console.error\<close> and falls off the end of
  the function, which returns \<^verbatim>\<open>undefined\<close> (\<open>None\<close>). The \<^verbatim>\<open>catch\<close> undoes nothing: the
  document stays as the body left it.
\<close>

definition injectCss :: "document \<Rightarrow> link option effect" where
  "injectCss d =
     (let entry = ConsoleLog (''injectCss is running with '' @
                    (case currentScript d of None \<Rightarrow> ''null'' | Some s \<Rightarrow> src s));
          body = injectCss_try d
      in case completion body of
           Returns l \<Rightarrow>
             \<lparr> completion = Returns (Some l), doc = doc body,
               console = entry # console body \<rparr>
         | Throws err \<Rightarrow>
             \<lparr> completion = Returns None, doc = doc body,
               console = entry # console body @
                         [ConsoleError ''injectCss failed:'' (message err)] \<rparr>)"

definition kept_links :: "document \<Rightarrow> link list \<Rightarrow> link list" where
  \<comment> \<open>the links of the head that the three removals of \<^verbatim>\<open>injectCss\<close> leave\<close>
  "kept_links d ls = remove_duplicates d (remove_fallbacks d (remove_outdated ls))"

text \<open>
  Running the installed handler on its link, and the browser delivering an error event:
  it calls \<^verbatim>\<open>link.onerror\<close> when that is not null.
\<close>

fun run_handler :: "document \<Rightarrow> handler \<Rightarrow> link \<Rightarrow> link \<times> console_entry list" where
  "run_handler d (FallbackTo bp) l =
     (let l' = l\<lparr> onerror := None, href_attr := Some (bp @ ''qore.css'') \<rparr>
      in (l', [ConsoleLog (''injectCss fallback to '' @ href_text d l')]))"

definition fire_error :: "document \<Rightarrow> link \<Rightarrow> link \<times> console_entry list" where
  "fire_error d l = (case onerror l of None \<Rightarrow> (l, []) | Some h \<Rightarrow> run_handler d h l)"

text \<open>
  The file name of a link as the specification words it: the address with the query
  string and the fragment stripped, then its last path segment. It is what the
  statements about the removal of outdated links compare \<open>link_file\<close> with.
\<close>

definition spec_filename_portion :: "string \<Rightarrow> string" where
  "spec_filename_portion h =
     last (split_on CHR ''/'' (takeWhile (\<lambda>c. c \<noteq> CHR ''?'' \<and> c \<noteq> CHR ''#'') h))"

section \<open>Path resolution: \<^verbatim>\<open>safeResolve\<close>\<close>

text \<open>
  What the module finds in its environment when it is loaded. \<open>has_require\<close> is
  \<^verbatim>\<open>typeof require === 'function'\<close>; \<open>require_resolve\<close> is \<^verbatim>\<open>require.resolve\<close>
  when it is truthy, a call of it returning a path or throwing; \<open>node_path\<close> is the
  \<^verbatim>\<open>resolve\<close> of \<^verbatim>\<open>require('node:path')\<close> and \<open>node_fs\<close> is \<^verbatim>\<open>require('node:fs')\<close>, each
  \<open>None\<close> when the \<^verbatim>\<open>require\<close> call throws; \<open>has_qerrors\<close> says that
  \<^verbatim>\<open>require('qerrors')\<close> returns; \<open>dirname\<close> is \<^verbatim>\<open>__dirname\<close> when it is a string;
  \<open>has_window\<close> is \<^verbatim>\<open>typeof window !== 'undefined'\<close> and \<open>has_module_exports\<close> is
  \<^verbatim>\<open>typeof module !== 'undefined' && module.exports\<close>.
\<close>

record fs_module =
  existsSync :: "(string \<Rightarrow> bool) option"

record node_env =
  has_require :: bool
  require_resolve :: "(string \<Rightarrow> js_error + string) option"
  node_path :: "(string \<Rightarrow> string \<Rightarrow> string) option"
  has_qerrors :: bool
  node_fs :: "fs_module option"
  dirname :: "string option"
  has_window :: bool
  has_module_exports :: bool

definition path_resolve :: "node_env \<Rightarrow> string \<Rightarrow> string \<Rightarrow> string" where
  \<comment> \<open>\<^verbatim>\<open>path.resolve\<close>: of \<^verbatim>\<open>node:path\<close>, or the fallback \<^verbatim>\<open>(_d,f)=>f\<close>\<close>
  "path_resolve env =
     (if has_require env
      then (case node_path env of Some r \<Rightarrow> r | None \<Rightarrow> (\<lambda>d f. f))
      else (\<lambda>d f. f))"

definition errLog :: "node_env \<Rightarrow> bool" where
  \<comment> \<open>whether \<^verbatim>\<open>errLog\<close> holds qerrors (otherwise it is \<^verbatim>\<open>null\<close>)\<close>
  "errLog env = (has_require env \<and> has_qerrors env)"

definition fs :: "node_env \<Rightarrow> fs_module option" where
  "fs env = (if has_require env then node_fs env else None)"

definition native_resolve :: "node_env \<Rightarrow> string \<Rightarrow> (js_error + string) option" where
  \<comment> \<open>the \<^verbatim>\<open>try\<close> block: \<open>None\<close> when its condition is false\<close>
  "native_resolve env file =
     (if has_require env
      then (case require_resolve env of None \<Rightarrow> None | Some r \<Rightarrow> Some (r file))
      else None)"

definition baseDir :: "node_env \<Rightarrow> string" where
  \<comment> \<open>\<^verbatim>\<open>typeof __dirname === 'string' ? __dirname : ''\<close>\<close>
  "baseDir env = (case dirname env of Some d \<Rightarrow> d | None \<Rightarrow> [])"

definition fallback_path :: "node_env \<Rightarrow> string \<Rightarrow> string" where
  \<comment> \<open>\<^verbatim>\<open>abs = path.resolve(baseDir, file)\<close>\<close>
  "fallback_path env file = path_resolve env (baseDir env) file"

definition found_missing :: "node_env \<Rightarrow> string \<Rightarrow> bool" where
  \<comment> \<open>\<^verbatim>\<open>fs && fs.existsSync && !fs.existsSync(abs)\<close>\<close>
  "found_missing env abs_path =
     (case fs env of
        None \<Rightarrow> False
      | Some m \<Rightarrow> (case existsSync m of None \<Rightarrow> False | Some ex \<Rightarrow> \<not> ex abs_path))"

definition safeResolve :: "node_env \<Rightarrow> string \<Rightarrow> console_entry list \<times> (js_error + string)" where
  "safeResolve env file =
     (let log0 = [ConsoleLog (''safeResolve is running with '' @ file)]
      in case native_resolve env file of
           Some (Inr resolved) \<Rightarrow>
             (log0 @ [ConsoleLog (''safeResolve is returning '' @ resolved)], Inr resolved)
         | native \<Rightarrow>
             (let log1 = (case native of
                            Some (Inl err) \<Rightarrow>
                              [if errLog env then QErrors err ''safeResolve failed'' file
                               else ConsoleError ''safeResolve failed:'' (message err)]
                          | _ \<Rightarrow> []);
                  abs_path = fallback_path env file
              in if found_missing env abs_path
                 then (let err = Error (''file not found: '' @ abs_path)
                       in (log0 @ log1 @
                             [if errLog env then QErrors err ''safeResolve missing'' file
                              else ConsoleError ''safeResolve missing:'' (message err)],
                           Inl err))
                 else (log0 @ log1 @ [ConsoleLog (''safeResolve is returning '' @ abs_path)],
                       Inr abs_path)))"

section \<open>Loading the module\<close>

record qorecss =
  coreCss :: string
  variablesCss :: string

datatype loaded =
    NodeExport qorecss
  | BrowserGlobal qorecss "link option effect"
  | Inert qorecss

text \<open>
  The top level of the module: the two \<^verbatim>\<open>safeResolve\<close> calls that build the
  \<^verbatim>\<open>qorecss\<close> object, then the choice between export (with \<^verbatim>\<open>serverSide = true\<close>),
  the browser branch that calls \<^verbatim>\<open>injectCss()\<close>, and neither. \<open>Inl\<close> is an exception
  that leaves the module: the call \<^verbatim>\<open>injectCss()\<close> stands at the top level outside any
  \<^verbatim>\<open>try\<close>, so an exception thrown by it would be one.
\<close>

definition load_module ::
  "node_env \<Rightarrow> document \<Rightarrow> console_entry list \<times> (js_error + loaded)" where
  "load_module env d =
     (case safeResolve env ''./qore.css'' of
        (logs1, Inl e) \<Rightarrow> (logs1, Inl e)
      | (logs1, Inr core) \<Rightarrow>
          (case safeResolve env ''./variables.css'' of
             (logs2, Inl e) \<Rightarrow> (logs1 @ logs2, Inl e)
           | (logs2, Inr vars) \<Rightarrow>
               (let api = \<lparr> coreCss = core, variablesCss = vars \<rparr>
                in if \<not> has_window env \<and> has_module_exports env
                   then (logs1 @ logs2, Inr (NodeExport api))
                   else if has_window env
                   then (let r = injectCss d
                         in case completion r of
                              Throws e \<Rightarrow> (logs1 @ logs2 @ console r, Inl e)
                            | Returns x \<Rightarrow>
                                (logs1 @ logs2 @ console r, Inr (BrowserGlobal api r)))
                   else (logs1 @ logs2, Inr (Inert api)))))"

text \<open>
  \<^verbatim>\<open>path.resolve\<close> of Node on POSIX for two arguments, with the working directory as
  a parameter: the arguments are taken from the right until the path is absolute, the
  working directory is used when neither is, and the result is normalised. It is the
  Node library's function, used below to fill \<open>node_path\<close> in concrete environments.
\<close>

fun normalize_segments :: "string list \<Rightarrow> string list \<Rightarrow> string list" where
  "normalize_segments acc [] = rev acc"
| "normalize_segments acc (s # ss) =
     (if s = [] \<or> s = ''.'' then normalize_segments acc ss
      else if s = ''..'' then normalize_segments (tl acc) ss
      else normalize_segments (s # acc) ss)"

fun join_slash :: "string list \<Rightarrow> string" where
  "join_slash [] = []"
| "join_slash [a] = a"
| "join_slash (a # b # r) = a @ ''/'' @ join_slash (b # r)"

definition posix_resolve :: "string \<Rightarrow> string \<Rightarrow> string \<Rightarrow> string" where
  "posix_resolve cwd d f =
     (let joined = (if prefix ''/'' f then f
                    else if prefix ''/'' d then d @ ''/'' @ f
                    else cwd @ ''/'' @ d @ ''/'' @ f)
      in ''/'' @ join_slash (normalize_segments [] (split_on CHR ''/'' joined)))"

section \<open>The build orchestrator\<close>

text \<open>
  Modelled from the spec: the build script \<^verbatim>\<open>scripts/build.js\<close> is not among the source
  files; only its tests are. Every type and definition of this section is written from
  the specification's sections 3 and 4.1 to 4.5. The output directory is a list of files,
  name and content, in listing order. The stylesheet processor, the digest, the two
  compressors and the outcome of the deletion primitive are parameters; the names
  \<^verbatim>\<open>qore.css\<close>, \<^verbatim>\<open>index.js\<close> and \<^verbatim>\<open>build.hash\<close> are those of the build tests and the
  repository's notes.
\<close>

type_synonym directory = "(string \<times> string) list"

datatype fs_error = ENOENT | EACCES | EPERM | EBUSY

datatype build_error =
    SourceMissing
  | ProcessorFailed
  | DeleteFailed string fs_error
  | CompressionFailed
  | ModuleMissing
  | LiteralNotFound

record build_env =
  offline :: bool
  processor :: "string \<Rightarrow> string option"
  hasher :: "string \<Rightarrow> string"
  gzip :: "string \<Rightarrow> string option"
  brotli :: "string \<Rightarrow> string option"
  unlink_error :: "string \<Rightarrow> fs_error option"

definition is_hash :: "string \<Rightarrow> bool" where
  \<comment> \<open>Modelled from the spec: the Hash of section 3, eight lowercase hexadecimal
      characters; the hasher of \<^verbatim>\<open>scripts/build.js\<close> is missing\<close>
  "is_hash h = (length h = 8 \<and> list_all is_hexlow h)"

definition artifact_name :: "string \<Rightarrow> string" where
  \<comment> \<open>Modelled from the spec: the filename convention \<^verbatim>\<open>core.<hash>.min.css\<close> of
      section 6; the naming code of \<^verbatim>\<open>scripts/build.js\<close> is missing\<close>
  "artifact_name h = ''core.'' @ h @ ''.min.css''"

definition uncompressed_name :: "string \<Rightarrow> string" where
  \<comment> \<open>Modelled from the spec: a compressed variant is named after its artifact with
      \<^verbatim>\<open>.gz\<close> or \<^verbatim>\<open>.br\<close> appended (section 3); the cleanup of \<^verbatim>\<open>scripts/build.js\<close>
      is missing\<close>
  "uncompressed_name n =
     (if suffix ''.gz'' n \<or> suffix ''.br'' n then take (length n - 3) n else n)"

definition artifact_family :: "string \<Rightarrow> bool" where
  \<comment> \<open>Modelled from the spec: section 4.3, the names of the hashed-or-plain
      \<^verbatim>\<open>core(.hash)?.min.css\<close> family, compressed variants included; the cleanup of
      \<^verbatim>\<open>scripts/build.js\<close> is missing\<close>
  "artifact_family n = coreRegex (uncompressed_name n)"

definition readdir :: "directory \<Rightarrow> string list" where
  \<comment> \<open>Modelled from the spec: the listing of the output directory that section 4.3
      deletes from; the filesystem calls of \<^verbatim>\<open>scripts/build.js\<close> are missing\<close>
  "readdir d = map fst d"

definition readFile :: "directory \<Rightarrow> string \<Rightarrow> string option" where
  \<comment> \<open>Modelled from the spec: reading a file of the working directory (section 4.1);
      the filesystem calls of \<^verbatim>\<open>scripts/build.js\<close> are missing\<close>
  "readFile d n = map_of d n"

definition writeFile :: "directory \<Rightarrow> string \<Rightarrow> string \<Rightarrow> directory" where
  \<comment> \<open>Modelled from the spec: writing a file replaces the one of that name
      (section 4.1); the filesystem calls of \<^verbatim>\<open>scripts/build.js\<close> are missing\<close>
  "writeFile d n c = AList.delete n d @ [(n, c)]"

definition unlink :: "build_env \<Rightarrow> directory \<Rightarrow> string \<Rightarrow> fs_error + directory" where
  \<comment> \<open>Modelled from the spec: the deletion primitive of section 4.3, which fails with
      the error the environment gives for that name, or with not-found for a name that
      is not there; the filesystem calls of \<^verbatim>\<open>scripts/build.js\<close> are missing\<close>
  "unlink env d n =
     (case unlink_error env n of
        Some e \<Rightarrow> Inl e
      | None \<Rightarrow> if n \<in> set (readdir d) then Inr (AList.delete n d) else Inl ENOENT)"

fun cleanup :: "build_env \<Rightarrow> string list \<Rightarrow> directory \<Rightarrow> build_error + directory" where
  \<comment> \<open>Modelled from the spec: section 4.3, deleting the listed names one by one; a
      not-found failure means the file has already disappeared and is ignored, any
      other failure is propagated; the cleanup of \<^verbatim>\<open>scripts/build.js\<close> is missing\<close>
  "cleanup env [] d = Inr d"
| "cleanup env (n # ns) d =
     (case unlink env d n of
        Inr d' \<Rightarrow> cleanup env ns d'
      | Inl e \<Rightarrow>
          if e = ENOENT then cleanup env ns (AList.delete n d)
          else Inl (DeleteFailed n e))"

definition scheduled :: "string \<Rightarrow> directory \<Rightarrow> string list" where
  \<comment> \<open>Modelled from the spec: section 4.3, every listed file of the family that is not
      the target filename; the cleanup of \<^verbatim>\<open>scripts/build.js\<close> is missing\<close>
  "scheduled target d = filter (\<lambda>n. artifact_family n \<and> n \<noteq> target) (readdir d)"

definition compress :: "build_env \<Rightarrow> directory \<Rightarrow> string \<Rightarrow> build_error + directory" where
  \<comment> \<open>Modelled from the spec: section 4.4, the gzip and the brotli variant of the
      artifact, either failure being fatal; the compression stage of
      \<^verbatim>\<open>scripts/build.js\<close> is missing\<close>
  "compress env d artifactPath =
     (case readFile d artifactPath of
        None \<Rightarrow> Inl CompressionFailed
      | Some bytes \<Rightarrow>
          (case gzip env bytes of
             None \<Rightarrow> Inl CompressionFailed
           | Some gz \<Rightarrow>
               (case brotli env bytes of
                  None \<Rightarrow> Inl CompressionFailed
                | Some br \<Rightarrow>
                    Inr (writeFile (writeFile d (artifactPath @ ''.gz'') gz)
                           (artifactPath @ ''.br'') br))))"

definition literal_at :: "string \<Rightarrow> bool" where
  \<comment> \<open>Modelled from the spec: section 4.5, the embedded literal has the fixed format
      \<^verbatim>\<open>core.<8-hex>.min.css\<close>; the patcher of \<^verbatim>\<open>scripts/build.js\<close> is missing\<close>
  "literal_at s =
     (take 5 s = ''core.'' \<and> is_hash (take 8 (drop 5 s)) \<and> take 8 (drop 13 s) = ''.min.css'')"

fun patch :: "string \<Rightarrow> string \<Rightarrow> string option" where
  \<comment> \<open>Modelled from the spec: section 4.5, the first literal of the module source is
      replaced by the new filename, the text around it staying as it is; \<open>None\<close> when
      no literal is found; the patcher of \<^verbatim>\<open>scripts/build.js\<close> is missing\<close>
  "patch [] newHash = None"
| "patch (c # cs) newHash =
     (if literal_at (c # cs) then Some (artifact_name newHash @ drop 21 (c # cs))
      else map_option ((#) c) (patch cs newHash))"

definition build :: "build_env \<Rightarrow> directory \<Rightarrow> build_error + string \<times> directory" where
  \<comment> \<open>Modelled from the spec: section 4.1, the steps in the order given there,
      returning the hash and the directory after the build; \<^verbatim>\<open>scripts/build.js\<close>
      is missing\<close>
  "build env d =
     (case readFile d ''qore.css'' of
        None \<Rightarrow> Inl SourceMissing
      | Some source \<Rightarrow>
          (case (if offline env then Some source else processor env source) of
             None \<Rightarrow> Inl ProcessorFailed
           | Some css \<Rightarrow>
               (let hash = hasher env css;
                    target = artifact_name hash
                in case cleanup env (scheduled target d) d of
                     Inl e \<Rightarrow> Inl e
                   | Inr d1 \<Rightarrow>
                       (let d2 = writeFile d1 target css;
                            d3 = writeFile d2 ''build.hash'' hash
                        in case compress env d3 target of
                             Inl e \<Rightarrow> Inl e
                           | Inr d4 \<Rightarrow>
                               (case readFile d4 ''index.js'' of
                                  None \<Rightarrow> Inl ModuleMissing
                                | Some moduleSource \<Rightarrow>
                                    (case patch moduleSource hash of
                                       None \<Rightarrow> Inl LiteralNotFound
                                     | Some updatedSource \<Rightarrow>
                                         Inr (hash,
                                              writeFile d4 ''index.js'' updatedSource)))))))"

definition staged :: "directory \<Rightarrow> string \<Rightarrow> string \<Rightarrow> string \<Rightarrow> string \<Rightarrow> directory" where
  \<comment> \<open>Modelled from the spec: the directory after the four writes of section 4.1, the
      artifact, the hash record and the two compressed variants; \<^verbatim>\<open>scripts/build.js\<close>
      is missing\<close>
  "staged d h css gz br =
     writeFile (writeFile (writeFile (writeFile d (artifact_name h) css) ''build.hash'' h)
       (artifact_name h @ ''.gz'') gz) (artifact_name h @ ''.br'') br"

definition family_files :: "directory \<Rightarrow> string list" where
  \<comment> \<open>Modelled from the spec: the listed files of the artifact family (section 4.3);
      \<^verbatim>\<open>scripts/build.js\<close> is missing\<close>
  "family_files d = filter artifact_family (readdir d)"

section \<open>Concrete documents, environments and directories\<close>

text \<open>
  A page at \<^verbatim>\<open>https://example.com/\<close>: an absolute URL in normal form resolves to
  itself and a plain relative file name resolves against the page.
\<close>

definition on_example_page :: "string \<Rightarrow> string" where
  "on_example_page a = (if prefix ''https://'' a then a else ''https://example.com/'' @ a)"

definition example_pathname :: "string \<Rightarrow> string option" where
  "example_pathname s =
     (if s = ''https://cdn.example.com/assets/INDEX.JS'' then Some ''/assets/INDEX.JS''
      else if s = ''https://example.com/app.js'' then Some ''/app.js''
      else None)"

definition stale_link :: link where
  "stale_link = \<lparr> node = 0, html = True, rel = ''stylesheet'', type_attr = [],
                   href_attr = Some ''core.123.min.css?old=1'', onerror = None \<rparr>"

definition extra_link :: link where
  "extra_link = \<lparr> node = 1, html = True, rel = ''stylesheet'', type_attr = [],
                   href_attr = Some ''core.extra.css'', onerror = None \<rparr>"

definition plain_link :: link where
  "plain_link = \<lparr> node = 2, html = True, rel = ''stylesheet'', type_attr = [],
                   href_attr = Some ''qore.css'', onerror = None \<rparr>"

definition injected_link :: link where
  "injected_link =
     \<lparr> node = 3, html = True, rel = ''stylesheet'', type_attr = ''text/css'',
       href_attr = Some ''https://cdn.example.com/assets/core.5c7df4d0.min.css'',
       onerror = Some (FallbackTo ''https://cdn.example.com/assets/'') \<rparr>"

definition first_link :: "nat \<Rightarrow> link" where
  \<comment> \<open>the link that a run creates when no script gives a base path\<close>
  "first_link n =
     \<lparr> node = n, html = True, rel = ''stylesheet'', type_attr = ''text/css'',
       href_attr = Some ''core.5c7df4d0.min.css'', onerror = Some (FallbackTo []) \<rparr>"

definition doc_first_load :: document where
  "doc_first_load =
     \<lparr> currentScript = None, scripts = [], head = Some [], next_node = 0,
       resolveURL = on_example_page, pathnameURL = example_pathname \<rparr>"

definition doc_stale :: document where
  "doc_stale =
     \<lparr> currentScript = None,
       scripts = [\<lparr> src = ''https://example.com/app.js'', data_qorecss = False \<rparr>,
                  \<lparr> src = ''https://cdn.example.com/assets/INDEX.JS'', data_qorecss = False \<rparr>],
       head = Some [stale_link, extra_link, plain_link], next_node = 3,
       resolveURL = on_example_page, pathnameURL = example_pathname \<rparr>"

definition doc_no_head :: document where
  "doc_no_head =
     \<lparr> currentScript = None, scripts = [], head = None, next_node = 0,
       resolveURL = on_example_page, pathnameURL = example_pathname \<rparr>"

text \<open>
  A head with a stale link and a \<^verbatim>\<open>link\<close> element of the SVG namespace, which has the
  attribute but not the property \<^verbatim>\<open>href\<close>.
\<close>

definition foreign_link :: link where
  "foreign_link = \<lparr> node = 1, html = False, rel = [], type_attr = [],
                     href_attr = Some ''theme.css'', onerror = None \<rparr>"

definition doc_foreign :: document where
  "doc_foreign =
     \<lparr> currentScript = None, scripts = [],
       head = Some [stale_link, foreign_link], next_node = 2,
       resolveURL = on_example_page, pathnameURL = example_pathname \<rparr>"

text \<open>
  A script served from a directory whose name contains \<^verbatim>\<open>qore.css\<close>.
\<close>

definition doc_qore_dir :: document where
  "doc_qore_dir =
     \<lparr> currentScript = Some \<lparr> src = ''https://example.com/qore.css/index.js'',
                               data_qorecss = False \<rparr>,
       scripts = [], head = Some [], next_node = 0,
       resolveURL = on_example_page, pathnameURL = example_pathname \<rparr>"

definition qore_dir_link :: "nat \<Rightarrow> link" where
  "qore_dir_link n =
     \<lparr> node = n, html = True, rel = ''stylesheet'', type_attr = ''text/css'',
       href_attr = Some ''https://example.com/qore.css/core.5c7df4d0.min.css'',
       onerror = Some (FallbackTo ''https://example.com/qore.css/'') \<rparr>"

text \<open>
  The current hashed stylesheet followed by a stylesheet of another name that ends in
  the current hashed file name.
\<close>

definition current_link :: link where
  "current_link = \<lparr> node = 0, html = True, rel = ''stylesheet'', type_attr = [],
                     href_attr = Some ''https://example.com/core.5c7df4d0.min.css'',
                     onerror = None \<rparr>"

definition legacy_link :: link where
  "legacy_link = \<lparr> node = 1, html = True, rel = ''stylesheet'', type_attr = [],
                    href_attr = Some ''https://example.com/legacy-core.5c7df4d0.min.css'',
                    onerror = None \<rparr>"

definition doc_lookalike :: document where
  "doc_lookalike =
     \<lparr> currentScript = None, scripts = [],
       head = Some [current_link, legacy_link], next_node = 2,
       resolveURL = on_example_page, pathnameURL = example_pathname \<rparr>"

text \<open>
  A stale hashed stylesheet whose query string contains a slash, and an unrelated
  stylesheet whose fragment contains a slash followed by a stale hashed file name.
\<close>

definition query_slash_link :: link where
  "query_slash_link = \<lparr> node = 0, html = True, rel = ''stylesheet'', type_attr = [],
                         href_attr = Some ''core.123.min.css?v=1/2'', onerror = None \<rparr>"

definition doc_query_slash :: document where
  "doc_query_slash =
     \<lparr> currentScript = None, scripts = [],
       head = Some [query_slash_link], next_node = 1,
       resolveURL = on_example_page, pathnameURL = example_pathname \<rparr>"

definition fragment_slash_link :: link where
  "fragment_slash_link = \<lparr> node = 0, html = True, rel = ''stylesheet'', type_attr = [],
                            href_attr = Some ''theme.css#/core.123.min.css'',
                            onerror = None \<rparr>"

definition doc_fragment_slash :: document where
  "doc_fragment_slash =
     \<lparr> currentScript = None, scripts = [],
       head = Some [fragment_slash_link], next_node = 1,
       resolveURL = on_example_page, pathnameURL = example_pathname \<rparr>"

definition env_browser :: node_env where
  "env_browser =
     \<lparr> has_require = False, require_resolve = None, node_path = None,
       has_qerrors = False, node_fs = None, dirname = None,
       has_window = True, has_module_exports = False \<rparr>"

definition env_vm :: node_env where
  \<comment> \<open>a \<^verbatim>\<open>require\<close> without \<^verbatim>\<open>resolve\<close>, Node's modules, no \<^verbatim>\<open>__dirname\<close>, working
      directory \<^verbatim>\<open>/app\<close> holding \<^verbatim>\<open>qore.css\<close> and \<^verbatim>\<open>variables.css\<close>\<close>
  "env_vm =
     \<lparr> has_require = True, require_resolve = None,
       node_path = Some (posix_resolve ''/app''),
       has_qerrors = False,
       node_fs = Some \<lparr> existsSync =
                   Some (\<lambda>p. p = ''/app/qore.css'' \<or> p = ''/app/variables.css'') \<rparr>,
       dirname = None, has_window = False, has_module_exports = True \<rparr>"

definition env_no_path :: node_env where
  \<comment> \<open>a \<^verbatim>\<open>require\<close> without \<^verbatim>\<open>resolve\<close> that cannot load \<^verbatim>\<open>node:path\<close>, no
      \<^verbatim>\<open>__dirname\<close>, and a working directory holding only \<^verbatim>\<open>qore.css\<close>\<close>
  "env_no_path =
     \<lparr> has_require = True, require_resolve = None, node_path = None,
       has_qerrors = False,
       node_fs = Some \<lparr> existsSync = Some (\<lambda>p. p = ''./qore.css'' \<or> p = ''qore.css'') \<rparr>,
       dirname = None, has_window = False, has_module_exports = True \<rparr>"

definition env_offline :: build_env where
  \<comment> \<open>offline mode, with a deletion primitive that reports not-found for every name
      that contains \<^verbatim>\<open>deadbeef\<close>\<close>
  "env_offline =
     \<lparr> offline = True, processor = (\<lambda>s. None), hasher = (\<lambda>s. ''5c7df4d0''),
       gzip = (\<lambda>s. Some (''gz:'' @ s)), brotli = (\<lambda>s. Some (''br:'' @ s)),
       unlink_error = (\<lambda>n. if includes_str n ''deadbeef'' then Some ENOENT else None) \<rparr>"

definition env_denied :: build_env where
  \<comment> \<open>as \<open>env_offline\<close>, but deleting the old artifact is refused\<close>
  "env_denied =
     env_offline \<lparr> unlink_error :=
       (\<lambda>n. if n = ''core.deadbeef.min.css'' then Some EACCES else None) \<rparr>"

definition dir_seeded :: directory where
  "dir_seeded =
     [(''qore.css'', ''body{}''),
      (''index.js'', ''const cssFile = `core.00000000.min.css`;''),
      (''core.deadbeef.min.css'', ''old''),
      (''core.deadbeef.min.css.gz'', ''old''),
      (''core.deadbeef.min.css.br'', ''old'')]"

definition dir_built :: directory where
  "dir_built =
     [(''qore.css'', ''body{}''),
      (''core.5c7df4d0.min.css'', ''body{}''),
      (''build.hash'', ''5c7df4d0''),
      (''core.5c7df4d0.min.css.gz'', ''gz:body{}''),
      (''core.5c7df4d0.min.css.br'', ''br:body{}''),
      (''index.js'', ''const cssFile = `core.5c7df4d0.min.css`;'')]"

section \<open>Facts about the string methods and the removal passes\<close>

lemma split_on_not_Nil: "split_on c s \<noteq> []"
  by (induction s) (auto split: list.splits)

lemma split_on_no_sep: "c \<notin> set s \<Longrightarrow> split_on c s = [s]"
  by (induction s) (auto split: list.splits)

lemma split_on_append: "split_on c (b @ c # f) = split_on c b @ split_on c f"
proof (induction b)
  case Nil
  then show ?case by simp
next
  case (Cons x b)
  obtain p ps where "split_on c b = p # ps"
    using split_on_not_Nil[of c b] by (cases "split_on c b") auto
  with Cons show ?case by simp
qed

lemma last_split_on_append:
  "c \<notin> set f \<Longrightarrow> last (split_on c (b @ c # f)) = f"
  by (simp add: split_on_append split_on_no_sep)

lemma lastIndexOf_range:
  "lastIndexOf s c = - 1 \<or> (0 \<le> lastIndexOf s c \<and> nat (lastIndexOf s c) < length s \<and> s ! nat (lastIndexOf s c) = c)"
  by (induction s) (auto simp: Let_def nat_add_distrib)

lemma slice0_lastIndexOf:
  "slice0 s (lastIndexOf s c + 1) = [] \<or> (\<exists>b. slice0 s (lastIndexOf s c + 1) = b @ [c])"
proof -
  consider "lastIndexOf s c = - 1" | "0 \<le> lastIndexOf s c" "nat (lastIndexOf s c) < length s" "s ! nat (lastIndexOf s c) = c"
    using lastIndexOf_range[of s c] by blast
  then show ?thesis
  proof cases
    case 1
    then show ?thesis by (simp add: slice0_def)
  next
    case 2
    then have "take (nat (lastIndexOf s c + 1)) s = take (nat (lastIndexOf s c)) s @ [c]"
      by (simp add: nat_add_distrib take_Suc_conv_app_nth)
    then show ?thesis by (auto simp: slice0_def)
  qed
qed

lemma basePath_shape: "basePath d = [] \<or> (\<exists>b. basePath d = b @ ''/'')"
  using slice0_lastIndexOf[of "scriptSrc d" "CHR ''/''"]
  by (auto simp: basePath_def Let_def)

lemma link_file_basePath: "link_file (basePath d @ cssFile) = cssFile"
proof -
  have n: "CHR ''/'' \<notin> set cssFile" by (simp add: cssFile_def)
  have "last (split_on CHR ''/'' (basePath d @ cssFile)) = cssFile"
    using basePath_shape[of d] n
    by (auto simp: last_split_on_append split_on_no_sep)
  moreover have "hd (split_on CHR ''#'' (hd (split_on CHR ''?'' cssFile))) = cssFile"
    by (simp add: cssFile_def)
  ultimately show ?thesis by (simp add: link_file_def)
qed

lemma coreRegex_cssFile: "coreRegex cssFile"
  by (simp add: coreRegex_def cssFile_def strip_prefix_def is_hexlow_def)

lemma new_link_not_outdated: "\<not> outdated (new_link d)"
  by (simp add: outdated_def new_link_def raw_href_def link_file_basePath)

lemma set_remove_duplicates: "set (remove_duplicates d ls) \<subseteq> set ls"
  by (induction ls) auto

lemma hashed_remove_duplicates:
  "hashedLinks d (remove_duplicates d ls) = take 1 (hashedLinks d ls)"
  by (induction ls) (auto simp: hashedLinks_def)

lemma mem_remove_duplicates:
  "l \<in> set ls \<Longrightarrow> \<not> is_hashed d l \<Longrightarrow> l \<in> set (remove_duplicates d ls)"
  by (induction ls) auto


lemma remove_duplicates_cong:
  "is_hashed d' = is_hashed d \<Longrightarrow> remove_duplicates d' ls = remove_duplicates d ls"
  by (induction ls) auto

lemma href_includes_html:
  "html l \<Longrightarrow> href_includes d l s = Inr (href_contains d l s)"
  by (simp add: href_contains_def href_includes_def href_def)

lemma href_includes_foreign: "\<not> html l \<Longrightarrow> href_includes d l s = Inl undefined_href"
  by (simp add: href_includes_def href_def)

lemma href_contains_html: "href_contains d l s \<Longrightarrow> html l"
  by (cases "html l") (simp_all add: href_contains_def href_includes_foreign)

lemma href_contains_iff:
  "href_contains d l s \<longleftrightarrow> (\<exists>h. href d l = Some h \<and> includes_str h s)"
  by (cases "href d l") (simp_all add: href_contains_def href_includes_def)

lemma filter_js_href:
  "filter_js (\<lambda>l. href_includes d l s) ls =
     (if list_all html ls then Inr (filter (\<lambda>l. href_contains d l s) ls)
      else Inl undefined_href)"
proof (induction ls)
  case Nil
  then show ?case by simp
next
  case (Cons l ls)
  show ?case
  proof (cases "html l")
    case True
    then show ?thesis using Cons by (simp add: href_includes_html)
  next
    case False
    then show ?thesis by (simp add: href_includes_foreign)
  qed
qed

lemma list_all_html_filter: "list_all html ls \<Longrightarrow> list_all html (filter P ls)"
  by (simp add: list_all_iff)

lemma try_no_head:
  assumes "head d = None"
  shows "injectCss_try d =
           \<lparr> completion = Throws null_head, doc = d,
             console = [ConsoleLog (''injectCss basePath '' @ basePath d)] \<rparr>"
  using assms by (simp add: injectCss_try_def)

lemma try_foreign:
  assumes "head d = Some ls" "\<not> list_all html (remove_outdated ls)"
  shows "injectCss_try d =
           \<lparr> completion = Throws undefined_href,
             doc = d\<lparr> head := Some (remove_outdated ls) \<rparr>,
             console = ConsoleLog (''injectCss basePath '' @ basePath d) #
                       map (\<lambda>l. ConsoleLog (''injectCss removed outdated '' @ href_text d l))
                         (filter outdated ls) \<rparr>"
  using assms by (simp add: injectCss_try_def Let_def filter_js_href)

lemma try_created:
  assumes "head d = Some ls" "list_all html (remove_outdated ls)"
    and "hashedLinks d (remove_fallbacks d (remove_outdated ls)) = []"
  shows "completion (injectCss_try d) = Returns (new_link d)"
    and "doc (injectCss_try d) =
           d\<lparr> head := Some (kept_links d ls @ [new_link d]), next_node := Suc (next_node d) \<rparr>"
proof -
  have a: "list_all html (remove_fallbacks d (remove_outdated ls))"
    using assms(2) by (simp add: remove_fallbacks_def list_all_html_filter)
  have b: "filter (\<lambda>l. href_contains d l cssFile) (remove_fallbacks d (remove_outdated ls)) = []"
    using assms(3) by (simp add: hashedLinks_def is_hashed_def[abs_def])
  show "completion (injectCss_try d) = Returns (new_link d)"
    using assms(1,2) a b by (simp add: injectCss_try_def Let_def filter_js_href)
  show "doc (injectCss_try d) =
           d\<lparr> head := Some (kept_links d ls @ [new_link d]), next_node := Suc (next_node d) \<rparr>"
    using assms(1,2) a b by (simp add: injectCss_try_def Let_def filter_js_href kept_links_def)
qed

lemma try_reused:
  assumes "head d = Some ls" "list_all html (remove_outdated ls)"
    and "hashedLinks d (remove_fallbacks d (remove_outdated ls)) = e # es"
  shows "completion (injectCss_try d) = Returns e"
    and "doc (injectCss_try d) = d\<lparr> head := Some (kept_links d ls) \<rparr>"
proof -
  have a: "list_all html (remove_fallbacks d (remove_outdated ls))"
    using assms(2) by (simp add: remove_fallbacks_def list_all_html_filter)
  have b: "filter (\<lambda>l. href_contains d l cssFile) (remove_fallbacks d (remove_outdated ls)) = e # es"
    using assms(3) by (simp add: hashedLinks_def is_hashed_def[abs_def])
  show "completion (injectCss_try d) = Returns e"
    using assms(1,2) a b by (simp add: injectCss_try_def Let_def filter_js_href)
  show "doc (injectCss_try d) = d\<lparr> head := Some (kept_links d ls) \<rparr>"
    using assms(1,2) a b by (simp add: injectCss_try_def Let_def filter_js_href kept_links_def)
qed

lemma try_throws_iff:
  "(\<exists>e. completion (injectCss_try d) = Throws e) \<longleftrightarrow>
   (head d = None \<or> (\<exists>ls. head d = Some ls \<and> \<not> list_all html (remove_outdated ls)))"
proof (cases "head d")
  case None
  then show ?thesis by (simp add: try_no_head)
next
  case (Some ls)
  show ?thesis
  proof (cases "list_all html (remove_outdated ls)")
    case False
    then show ?thesis using Some by (simp add: try_foreign)
  next
    case True
    then show ?thesis using Some
      by (cases "hashedLinks d (remove_fallbacks d (remove_outdated ls))")
         (simp_all add: try_created try_reused)
  qed
qed

lemma injectCss_doc: "doc (injectCss d) = doc (injectCss_try d)"
  by (cases "completion (injectCss_try d)") (simp_all add: injectCss_def Let_def)

lemma injectCss_Returns:
  "completion (injectCss_try d) = Returns l \<Longrightarrow> completion (injectCss d) = Returns (Some l)"
  by (simp add: injectCss_def Let_def)

lemma injectCss_Throws:
  "completion (injectCss_try d) = Throws e \<Longrightarrow> completion (injectCss d) = Returns None"
  by (simp add: injectCss_def Let_def)

lemma injectCss_created:
  assumes "head d = Some ls" "list_all html (remove_outdated ls)"
    and "hashedLinks d (remove_fallbacks d (remove_outdated ls)) = []"
  shows "doc (injectCss d) =
           d\<lparr> head := Some (kept_links d ls @ [new_link d]), next_node := Suc (next_node d) \<rparr>"
    and "completion (injectCss d) = Returns (Some (new_link d))"
  using try_created[OF assms] by (simp_all add: injectCss_doc injectCss_Returns)

lemma injectCss_reused:
  assumes "head d = Some ls" "list_all html (remove_outdated ls)"
    and "hashedLinks d (remove_fallbacks d (remove_outdated ls)) = e # es"
  shows "doc (injectCss d) = d\<lparr> head := Some (kept_links d ls) \<rparr>"
    and "completion (injectCss d) = Returns (Some e)"
  using try_reused[OF assms] by (simp_all add: injectCss_doc injectCss_Returns)

lemma injectCss_no_head:
  assumes "head d = None"
  shows "doc (injectCss d) = d" and "completion (injectCss d) = Returns None"
  using assms by (simp_all add: injectCss_def Let_def try_no_head)

lemma injectCss_foreign:
  assumes "head d = Some ls" "\<not> list_all html (remove_outdated ls)"
  shows "doc (injectCss d) = d\<lparr> head := Some (remove_outdated ls) \<rparr>"
    and "completion (injectCss d) = Returns None"
  using assms by (simp_all add: injectCss_def Let_def try_foreign)

lemma injectCss_Some_head:
  assumes "completion (injectCss d) = Returns (Some l)"
  obtains ls where "head d = Some ls" "list_all html (remove_outdated ls)"
proof (cases "head d")
  case None
  then show ?thesis using assms by (simp add: injectCss_no_head)
next
  case (Some ls)
  then show ?thesis using assms that by (cases "list_all html (remove_outdated ls)")
      (simp_all add: injectCss_foreign)
qed

lemma kept_links_props:
  "set (kept_links d ls) \<subseteq> set (remove_outdated ls)"
  "l \<in> set (kept_links d ls) \<Longrightarrow> \<not> outdated l"
  "l \<in> set (kept_links d ls) \<Longrightarrow> \<not> is_fallback d l"
  using set_remove_duplicates[of d "remove_fallbacks d (remove_outdated ls)"]
  by (auto simp: kept_links_def remove_fallbacks_def remove_outdated_def)


lemma hashed_kept_links:
  "hashedLinks d (kept_links d ls) = take 1 (hashedLinks d (remove_fallbacks d (remove_outdated ls)))"
  by (simp add: kept_links_def hashed_remove_duplicates)

lemma head_injectCss:
  assumes "head d = Some ls" "list_all html (remove_outdated ls)"
  shows "head (doc (injectCss d)) =
         Some (kept_links d ls @
               (if hashedLinks d (remove_fallbacks d (remove_outdated ls)) = []
                then [new_link d] else []))"
proof (cases "hashedLinks d (remove_fallbacks d (remove_outdated ls))")
  case Nil
  with assms show ?thesis by (simp add: injectCss_created)
next
  case (Cons e es)
  with assms show ?thesis by (simp add: injectCss_reused)
qed

lemma doc_injectCss_shape: "\<exists>h n. doc (injectCss d) = d\<lparr> head := h, next_node := n \<rparr>"
proof (cases "head d")
  case None
  have "d = d\<lparr> head := head d, next_node := next_node d \<rparr>" by simp
  then show ?thesis using None injectCss_no_head(1)[OF None] by metis
next
  case (Some ls)
  show ?thesis
  proof (cases "list_all html (remove_outdated ls)")
    case False
    have "doc (injectCss d) = d\<lparr> head := Some (remove_outdated ls), next_node := next_node d \<rparr>"
      using injectCss_foreign(1)[OF Some False] by simp
    then show ?thesis by blast
  next
    case True
    show ?thesis
    proof (cases "hashedLinks d (remove_fallbacks d (remove_outdated ls))")
      case Nil
      show ?thesis using injectCss_created(1)[OF Some True Nil] by blast
    next
      case (Cons e es)
      have "doc (injectCss d) = d\<lparr> head := Some (kept_links d ls), next_node := next_node d \<rparr>"
        using injectCss_reused(1)[OF Some True Cons] by simp
      then show ?thesis by blast
    qed
  qed
qed

lemma resolveURL_injectCss: "resolveURL (doc (injectCss d)) = resolveURL d"
  using doc_injectCss_shape[of d] by auto


lemma href_injectCss: "href (doc (injectCss d)) l = href d l"
  by (simp add: href_def resolveURL_injectCss split: option.split)

lemma is_hashed_injectCss: "is_hashed (doc (injectCss d)) = is_hashed d"
  by (rule ext)
     (simp add: is_hashed_def href_contains_def href_includes_def href_injectCss)

lemma is_fallback_injectCss: "is_fallback (doc (injectCss d)) = is_fallback d"
  by (rule ext)
     (simp add: is_fallback_def href_contains_def href_includes_def href_injectCss)



lemma is_fallback_new_link:
  "is_fallback d (new_link d) \<longleftrightarrow>
   includes_str (resolveURL d (basePath d @ cssFile)) ''qore.css''"
  by (simp add: is_fallback_def href_contains_def href_includes_def href_def new_link_def)

lemma outdated_links_removed:
  assumes "head d = Some links" and "l \<in> set links" and "outdated l"
  shows "\<exists>links'. head (doc (injectCss d)) = Some links' \<and> l \<notin> set links'"
proof (cases "list_all html (remove_outdated links)")
  case True
  have "l \<notin> set (kept_links d links)" using assms(3) kept_links_props(2) by blast
  moreover have "l \<noteq> new_link d" using assms(3) new_link_not_outdated by blast
  ultimately show ?thesis using head_injectCss[OF assms(1) True] by auto
next
  case False
  have "l \<notin> set (remove_outdated links)" using assms(3) by (simp add: remove_outdated_def)
  then show ?thesis using injectCss_foreign(1)[OF assms(1) False] by simp
qed



text \<open>
  Where the two readings of the file name of a link agree. \<open>link_file\<close> takes the last
  \<^verbatim>\<open>/\<close>-segment first and strips query and fragment from it; \<open>spec_filename_portion\<close>
  strips first. They give the same name for every address whose query string and
  fragment contain no \<^verbatim>\<open>/\<close>, and a stale link with such an address is removed.
\<close>

lemma hd_split_on: "hd (split_on c s) = takeWhile (\<lambda>x. x \<noteq> c) s"
proof (induction s)
  case Nil
  then show ?case by simp
next
  case (Cons x s)
  then show ?case using split_on_not_Nil[of c s] by (cases "split_on c s") auto
qed

lemma link_file_takeWhile:
  "link_file h =
     takeWhile (\<lambda>c. c \<noteq> CHR ''?'' \<and> c \<noteq> CHR ''#'') (last (split_on CHR ''/'' h))"
proof -
  have "takeWhile (\<lambda>x. x \<noteq> CHR ''#'') (takeWhile (\<lambda>x. x \<noteq> CHR ''?'') s) =
        takeWhile (\<lambda>c. c \<noteq> CHR ''?'' \<and> c \<noteq> CHR ''#'') s" for s :: string
    by (induction s) auto
  then show ?thesis by (simp add: link_file_def hd_split_on)
qed

lemma split_on_append_no_sep:
  "c \<notin> set q \<Longrightarrow>
   split_on c (p @ q) = butlast (split_on c p) @ [last (split_on c p) @ q]"
proof (induction p)
  case Nil
  then show ?case by (simp add: split_on_no_sep)
next
  case (Cons x p)
  obtain a as where 1: "split_on c p = a # as"
    using split_on_not_Nil[of c p] by (cases "split_on c p") auto
  have ih: "split_on c (p @ q) = butlast (a # as) @ [last (a # as) @ q]"
    using Cons 1 by simp
  show ?case
  proof (cases "x = c")
    case True
    then show ?thesis using ih 1 by simp
  next
    case False
    then show ?thesis using ih 1 by (cases as) simp_all
  qed
qed

lemma last_split_on_no_sep:
  "c \<notin> set q \<Longrightarrow> last (split_on c (p @ q)) = last (split_on c p) @ q"
  by (simp add: split_on_append_no_sep)

lemma set_last_split_on: "set (last (split_on c s)) \<subseteq> set s"
proof (induction s)
  case Nil
  then show ?case by simp
next
  case (Cons x s)
  obtain a as where 1: "split_on c s = a # as"
    using split_on_not_Nil[of c s] by (cases "split_on c s") auto
  show ?case using Cons 1 by (cases as) auto
qed

lemma link_file_agrees:
  assumes "CHR ''/'' \<notin> set (dropWhile (\<lambda>c. c \<noteq> CHR ''?'' \<and> c \<noteq> CHR ''#'') h)"
  shows "link_file h = spec_filename_portion h"
proof -
  let ?P = "\<lambda>c. c \<noteq> CHR ''?'' \<and> c \<noteq> CHR ''#''"
  let ?p = "takeWhile ?P h" and ?q = "dropWhile ?P h"
  let ?s = "last (split_on CHR ''/'' ?p)"
  have h: "h = ?p @ ?q" by simp
  have "last (split_on CHR ''/'' (?p @ ?q)) = ?s @ ?q"
    using assms by (rule last_split_on_no_sep)
  then have l: "last (split_on CHR ''/'' h) = ?s @ ?q" by simp
  have "set ?s \<subseteq> set ?p" by (rule set_last_split_on)
  then have s: "\<forall>c \<in> set ?s. ?P c" using set_takeWhileD by fastforce
  have q: "?q = [] \<or> \<not> ?P (hd ?q)" using hd_dropWhile by blast
  have tw: "takeWhile ?P (s @ q) = s"
    if "\<forall>c \<in> set s. ?P c" and "q = [] \<or> \<not> ?P (hd q)" for s q :: string
    using that by (cases q) (simp_all add: takeWhile_append2)
  have "takeWhile ?P (?s @ ?q) = ?s" using s q by (rule tw)
  then show ?thesis by (simp add: link_file_takeWhile l spec_filename_portion_def)
qed

lemma stale_link_without_late_slash_removed:
  assumes "head d = Some links" and "l \<in> set links"
    and "CHR ''/'' \<notin> set (dropWhile (\<lambda>c. c \<noteq> CHR ''?'' \<and> c \<noteq> CHR ''#'') (raw_href l))"
    and "coreRegex (spec_filename_portion (raw_href l))"
    and "spec_filename_portion (raw_href l) \<noteq> cssFile"
  shows "\<exists>links'. head (doc (injectCss d)) = Some links' \<and> l \<notin> set links'"
proof -
  have "outdated l"
    using assms(4,5) link_file_agrees[OF assms(3)] by (simp add: outdated_def)
  then show ?thesis using outdated_links_removed[OF assms(1,2)] by blast
qed

lemma unrelated_link_without_late_slash_kept:
  assumes "head d = Some links" and "l \<in> set links"
    and "CHR ''/'' \<notin> set (dropWhile (\<lambda>c. c \<noteq> CHR ''?'' \<and> c \<noteq> CHR ''#'') (raw_href l))"
    and "\<not> coreRegex (spec_filename_portion (raw_href l))"
    and "\<not> href_contains d l ''qore.css''"
    and "\<not> href_contains d l cssFile"
  shows "\<exists>links'. head (doc (injectCss d)) = Some links' \<and> l \<in> set links'"
proof -
  have "\<not> outdated l"
    using assms(4) link_file_agrees[OF assms(3)] by (simp add: outdated_def)
  then have fresh: "l \<in> set (remove_outdated links)"
    using assms(2) by (simp add: remove_outdated_def)
  show ?thesis
  proof (cases "list_all html (remove_outdated links)")
    case True
    have "l \<in> set (remove_fallbacks d (remove_outdated links))"
      using fresh assms(5) by (simp add: remove_fallbacks_def is_fallback_def)
    then have "l \<in> set (kept_links d links)"
      unfolding kept_links_def using assms(6)
      by (intro mem_remove_duplicates) (simp_all add: is_hashed_def)
    then show ?thesis using head_injectCss[OF assms(1) True] by auto
  next
    case False
    then show ?thesis using fresh injectCss_foreign(1)[OF assms(1) False] by simp
  qed
qed

section \<open>Stylesheet injection\<close>

text \<open>
  Claim C3 (stale-hash eviction), at a link with the address
  \<^verbatim>\<open>core.123.min.css?v=1/2\<close>. With the query string stripped the address is
  \<^verbatim>\<open>core.123.min.css\<close>, and so is its last path segment, whether the address is taken
  from the attribute or resolved against the page: the file name matches
  \<^verbatim>\<open>core(.hexhash)?.min.css\<close> and is not the current target file name, so the claim has
  the link removed. \<^verbatim>\<open>injectCss\<close> takes the text after the last \<^verbatim>\<open>/\<close> first and strips
  the query from that: it tests the name \<^verbatim>\<open>2\<close>, does not find the link outdated, and
  the link is still in the head when the run returns.
\<close>

theorem stale_link_slash_in_query_kept:
  "head doc_query_slash = Some [query_slash_link] \<and>
   raw_href query_slash_link = ''core.123.min.css?v=1/2'' \<and>
   href doc_query_slash query_slash_link =
     Some ''https://example.com/core.123.min.css?v=1/2'' \<and>
   spec_filename_portion ''core.123.min.css?v=1/2'' = ''core.123.min.css'' \<and>
   spec_filename_portion ''https://example.com/core.123.min.css?v=1/2'' =
     ''core.123.min.css'' \<and>
   coreRegex ''core.123.min.css'' \<and>
   ''core.123.min.css'' \<noteq> cssFile \<and>
   link_file ''core.123.min.css?v=1/2'' = ''2'' \<and>
   \<not> outdated query_slash_link \<and>
   completion (injectCss doc_query_slash) = Returns (Some (first_link 1)) \<and>
   head (doc (injectCss doc_query_slash)) = Some [query_slash_link, first_link 1] \<and>
   query_slash_link \<in> set [query_slash_link, first_link 1]"
  by code_simp

text \<open>
  Claim C10 (frame property of injection), at two links that the claim has kept.
  The first is a stylesheet \<^verbatim>\<open>legacy-core.5c7df4d0.min.css\<close> that follows the current
  hashed stylesheet in the head: its file name does not match
  \<^verbatim>\<open>core(.hexhash)?.min.css\<close> and its \<^verbatim>\<open>href\<close> does not contain \<^verbatim>\<open>qore.css\<close>, but the
  duplicate removal collects links by \<^verbatim>\<open>l.href.includes(cssFile)\<close>, not by file name,
  and removes it as a duplicate of the current one. The second is a stylesheet
  \<^verbatim>\<open>theme.css#/core.123.min.css\<close>: its file name is \<^verbatim>\<open>theme.css\<close>, but the first pass
  takes the text after the last \<^verbatim>\<open>/\<close> before it strips the fragment, tests the name
  \<^verbatim>\<open>core.123.min.css\<close> and removes the link as outdated.
\<close>

theorem lookalike_link_removed:
  "head doc_lookalike = Some [current_link, legacy_link] \<and>
   raw_href legacy_link = ''https://example.com/legacy-core.5c7df4d0.min.css'' \<and>
   href doc_lookalike legacy_link =
     Some ''https://example.com/legacy-core.5c7df4d0.min.css'' \<and>
   spec_filename_portion ''https://example.com/legacy-core.5c7df4d0.min.css'' =
     ''legacy-core.5c7df4d0.min.css'' \<and>
   \<not> coreRegex ''legacy-core.5c7df4d0.min.css'' \<and>
   \<not> href_contains doc_lookalike legacy_link ''qore.css'' \<and>
   completion (injectCss doc_lookalike) = Returns (Some current_link) \<and>
   head (doc (injectCss doc_lookalike)) = Some [current_link] \<and>
   legacy_link \<notin> set [current_link] \<and>
   head doc_fragment_slash = Some [fragment_slash_link] \<and>
   raw_href fragment_slash_link = ''theme.css#/core.123.min.css'' \<and>
   href doc_fragment_slash fragment_slash_link =
     Some ''https://example.com/theme.css#/core.123.min.css'' \<and>
   spec_filename_portion ''theme.css#/core.123.min.css'' = ''theme.css'' \<and>
   spec_filename_portion ''https://example.com/theme.css#/core.123.min.css'' =
     ''theme.css'' \<and>
   \<not> coreRegex ''theme.css'' \<and>
   \<not> href_contains doc_fragment_slash fragment_slash_link ''qore.css'' \<and>
   \<not> href_contains doc_fragment_slash fragment_slash_link cssFile \<and>
   link_file ''theme.css#/core.123.min.css'' = ''core.123.min.css'' \<and>
   completion (injectCss doc_fragment_slash) = Returns (Some (first_link 1)) \<and>
   head (doc (injectCss doc_fragment_slash)) = Some [first_link 1] \<and>
   fragment_slash_link \<notin> set [first_link 1]"
  by code_simp

text \<open>
  Claim C4 (link-set invariant after injection), as stated: after a successful run no
  link whose \<^verbatim>\<open>href\<close> contains \<^verbatim>\<open>qore.css\<close> remains. It fails when the script is served
  from a directory whose URL contains \<^verbatim>\<open>qore.css\<close>: the link that the run creates has
  the base path in its \<^verbatim>\<open>href\<close>, and it is in the head when the run returns.
\<close>

theorem link_set_after_injection_counterexample:
  "completion (injectCss doc_qore_dir) = Returns (Some (qore_dir_link 0)) \<and>
   head (doc (injectCss doc_qore_dir)) = Some [qore_dir_link 0] \<and>
   href (doc (injectCss doc_qore_dir)) (qore_dir_link 0) =
     Some ''https://example.com/qore.css/core.5c7df4d0.min.css'' \<and>
   includes_str ''https://example.com/qore.css/core.5c7df4d0.min.css'' cssFile \<and>
   includes_str ''https://example.com/qore.css/core.5c7df4d0.min.css'' ''qore.css''"
  by code_simp

text \<open>
  Claim C4, amended: after any successful \<^verbatim>\<open>injectCss\<close> run, one that returns a link,
  at most one link whose \<^verbatim>\<open>href\<close> contains the current hashed file name is in the head,
  and a link whose \<^verbatim>\<open>href\<close> contains \<^verbatim>\<open>qore.css\<close> is in the head only if it is the link
  that this run created and returned; the resolved address of that link, the base path
  followed by the hashed file name, then itself contains \<^verbatim>\<open>qore.css\<close>.
\<close>

theorem link_set_after_injection:
  assumes "completion (injectCss d) = Returns (Some l0)"
  shows "\<exists>links'. head (doc (injectCss d)) = Some links' \<and>
           length (filter (is_hashed (doc (injectCss d))) links') \<le> 1 \<and>
           (\<forall>l \<in> set links'. is_fallback (doc (injectCss d)) l \<longrightarrow>
              l = l0 \<and> l0 = new_link d \<and>
              includes_str (resolveURL d (basePath d @ cssFile)) ''qore.css'')"
proof -
  obtain ls where hd: "head d = Some ls" and hl: "list_all html (remove_outdated ls)"
    using assms by (rule injectCss_Some_head)
  let ?rest = "remove_fallbacks d (remove_outdated ls)"
  show ?thesis
  proof (cases "hashedLinks d ?rest")
    case Nil
    have l0: "l0 = new_link d" using injectCss_created(2)[OF hd hl Nil] assms by simp
    have "hashedLinks d (kept_links d ls) = []"
      using Nil by (simp add: hashed_kept_links)
    then have "length (filter (is_hashed d) (kept_links d ls @ [new_link d])) \<le> 1"
      by (simp add: hashedLinks_def)
    moreover have "\<forall>l \<in> set (kept_links d ls @ [new_link d]). is_fallback d l \<longrightarrow>
        l = new_link d \<and> includes_str (resolveURL d (basePath d @ cssFile)) ''qore.css''"
      using kept_links_props(3) is_fallback_new_link by auto
    ultimately show ?thesis
      using head_injectCss[OF hd hl] Nil l0
      by (simp add: is_hashed_injectCss is_fallback_injectCss)
  next
    case (Cons e es)
    have "length (hashedLinks d (kept_links d ls)) \<le> 1"
      by (simp add: hashed_kept_links)
    then have "length (filter (is_hashed d) (kept_links d ls)) \<le> 1"
      by (simp add: hashedLinks_def)
    moreover have "\<forall>l \<in> set (kept_links d ls). \<not> is_fallback d l"
      using kept_links_props(3) by auto
    ultimately show ?thesis
      using head_injectCss[OF hd hl] Cons
      by (simp add: is_hashed_injectCss is_fallback_injectCss)
  qed
qed

theorem link_set_after_injection_witness:
  "completion (injectCss doc_stale) = Returns (Some injected_link) \<and>
   head (doc (injectCss doc_stale)) = Some [extra_link, injected_link] \<and>
   length (filter (is_hashed (doc (injectCss doc_stale))) [extra_link, injected_link]) \<le> 1 \<and>
   \<not> is_hashed (doc (injectCss doc_stale)) extra_link \<and>
   is_hashed (doc (injectCss doc_stale)) injected_link \<and>
   \<not> is_fallback (doc (injectCss doc_stale)) extra_link \<and>
   \<not> is_fallback (doc (injectCss doc_stale)) injected_link"
proof -
  have h: "completion (injectCss doc_stale) = Returns (Some injected_link)"
    by code_simp
  have r: "head (doc (injectCss doc_stale)) = Some [extra_link, injected_link]"
    by code_simp
  have e: "\<not> is_hashed (doc (injectCss doc_stale)) extra_link"
    "is_hashed (doc (injectCss doc_stale)) injected_link"
    "\<not> is_fallback (doc (injectCss doc_stale)) extra_link"
    "\<not> is_fallback (doc (injectCss doc_stale)) injected_link"
    by code_simp+
  show ?thesis using h r e link_set_after_injection [OF h] by simp
qed




text \<open>
  Claim C5 (injection never raises). \<^verbatim>\<open>injectCss\<close> returns for every document. The body
  of its \<^verbatim>\<open>try\<close> block throws in exactly two cases: for a document without a head, with
  the document unchanged, and for a head in which a \<^verbatim>\<open>link\<close> element without an
  \<^verbatim>\<open>href\<close> property is left after the outdated links have been removed, with those
  removals done. Whatever the body throws, \<^verbatim>\<open>injectCss\<close> returns \<^verbatim>\<open>undefined\<close>, leaves
  the document as it was at the throw, and writes the message of the exception as the
  last console line. So the module load throws only what one of its two
  \<^verbatim>\<open>safeResolve\<close> calls throws, and in a browser, once both have returned, it ends
  normally with the result of the injection.
\<close>

theorem injection_never_raises:
  "(\<exists>r. completion (injectCss d) = Returns r) \<and>
   (\<forall>e. completion (injectCss_try d) = Throws e \<longrightarrow>
      completion (injectCss d) = Returns None \<and>
      doc (injectCss d) = doc (injectCss_try d) \<and>
      last (console (injectCss d)) = ConsoleError ''injectCss failed:'' (message e)) \<and>
   (head d = None \<longrightarrow>
      completion (injectCss_try d) = Throws null_head \<and> doc (injectCss_try d) = d) \<and>
   (\<forall>ls. head d = Some ls \<and> \<not> list_all html (remove_outdated ls) \<longrightarrow>
      completion (injectCss_try d) = Throws undefined_href \<and>
      doc (injectCss_try d) = d\<lparr> head := Some (remove_outdated ls) \<rparr>) \<and>
   (\<forall>ls. head d = Some ls \<and> list_all html (remove_outdated ls) \<longrightarrow>
      (\<exists>l. completion (injectCss_try d) = Returns l)) \<and>
   (\<forall>e. snd (load_module env d) = Inl e \<longrightarrow>
      snd (safeResolve env ''./qore.css'') = Inl e \<or>
      snd (safeResolve env ''./variables.css'') = Inl e) \<and>
   (\<forall>core vars. has_window env \<and>
      snd (safeResolve env ''./qore.css'') = Inr core \<and>
      snd (safeResolve env ''./variables.css'') = Inr vars \<longrightarrow>
      snd (load_module env d) =
        Inr (BrowserGlobal \<lparr> coreCss = core, variablesCss = vars \<rparr> (injectCss d)))"
proof -
  have ret: "\<exists>r. completion (injectCss d) = Returns r"
    by (cases "completion (injectCss_try d)") (simp_all add: injectCss_def Let_def)
  have caught: "\<forall>e. completion (injectCss_try d) = Throws e \<longrightarrow>
      completion (injectCss d) = Returns None \<and>
      doc (injectCss d) = doc (injectCss_try d) \<and>
      last (console (injectCss d)) = ConsoleError ''injectCss failed:'' (message e)"
    by (simp add: injectCss_def Let_def)
  have nohead: "head d = None \<longrightarrow>
      completion (injectCss_try d) = Throws null_head \<and> doc (injectCss_try d) = d"
    by (simp add: try_no_head)
  have foreign: "\<forall>ls. head d = Some ls \<and> \<not> list_all html (remove_outdated ls) \<longrightarrow>
      completion (injectCss_try d) = Throws undefined_href \<and>
      doc (injectCss_try d) = d\<lparr> head := Some (remove_outdated ls) \<rparr>"
    by (simp add: try_foreign)
  have fine: "\<forall>ls. head d = Some ls \<and> list_all html (remove_outdated ls) \<longrightarrow>
      (\<exists>l. completion (injectCss_try d) = Returns l)"
  proof (intro allI impI)
    fix ls assume a: "head d = Some ls \<and> list_all html (remove_outdated ls)"
    then show "\<exists>l. completion (injectCss_try d) = Returns l"
      by (cases "hashedLinks d (remove_fallbacks d (remove_outdated ls))")
         (simp_all add: try_created try_reused)
  qed
  obtain r where r: "completion (injectCss d) = Returns r" using ret by blast
  have load1: "\<forall>e. snd (load_module env d) = Inl e \<longrightarrow>
      snd (safeResolve env ''./qore.css'') = Inl e \<or>
      snd (safeResolve env ''./variables.css'') = Inl e"
  proof (intro allI impI)
    fix e assume a: "snd (load_module env d) = Inl e"
    obtain logs1 r1 where s1: "safeResolve env ''./qore.css'' = (logs1, r1)"
      by (cases "safeResolve env ''./qore.css''")
    obtain logs2 r2 where s2: "safeResolve env ''./variables.css'' = (logs2, r2)"
      by (cases "safeResolve env ''./variables.css''")
    show "snd (safeResolve env ''./qore.css'') = Inl e \<or>
          snd (safeResolve env ''./variables.css'') = Inl e"
      using a r by (cases r1; cases r2) (simp_all add: load_module_def Let_def s1 s2 split: if_splits)
  qed
  have load2: "\<forall>core vars. has_window env \<and>
      snd (safeResolve env ''./qore.css'') = Inr core \<and>
      snd (safeResolve env ''./variables.css'') = Inr vars \<longrightarrow>
      snd (load_module env d) =
        Inr (BrowserGlobal \<lparr> coreCss = core, variablesCss = vars \<rparr> (injectCss d))"
  proof (intro allI impI)
    fix core vars
    assume a: "has_window env \<and> snd (safeResolve env ''./qore.css'') = Inr core \<and>
      snd (safeResolve env ''./variables.css'') = Inr vars"
    then show "snd (load_module env d) =
        Inr (BrowserGlobal \<lparr> coreCss = core, variablesCss = vars \<rparr> (injectCss d))"
      using r
      by (cases "safeResolve env ''./qore.css''"; cases "safeResolve env ''./variables.css''")
         (simp add: load_module_def Let_def)
  qed
  show ?thesis using ret caught nohead foreign fine load1 load2 by blast
qed

theorem injection_never_raises_witness:
  "head doc_no_head = None \<and>
   completion (injectCss_try doc_no_head) = Throws null_head \<and>
   completion (injectCss doc_no_head) = Returns None \<and>
   doc (injectCss doc_no_head) = doc_no_head \<and>
   last (console (injectCss doc_no_head)) =
     ConsoleError ''injectCss failed:''
       (''Cannot read properties of null (reading '' @ [CHR 0x27] @ ''querySelectorAll'' @
        [CHR 0x27] @ '')'') \<and>
   head doc_foreign = Some [stale_link, foreign_link] \<and>
   \<not> list_all html (remove_outdated [stale_link, foreign_link]) \<and>
   completion (injectCss_try doc_foreign) = Throws undefined_href \<and>
   completion (injectCss doc_foreign) = Returns None \<and>
   doc (injectCss doc_foreign) = doc_foreign\<lparr> head := Some [foreign_link] \<rparr> \<and>
   last (console (injectCss doc_foreign)) =
     ConsoleError ''injectCss failed:''
       (''Cannot read properties of undefined (reading '' @ [CHR 0x27] @ ''includes'' @
        [CHR 0x27] @ '')'') \<and>
   has_window env_browser \<and>
   snd (safeResolve env_browser ''./qore.css'') = Inr ''./qore.css'' \<and>
   snd (safeResolve env_browser ''./variables.css'') = Inr ''./variables.css'' \<and>
   snd (load_module env_browser doc_foreign) =
     Inr (BrowserGlobal \<lparr> coreCss = ''./qore.css'', variablesCss = ''./variables.css'' \<rparr>
            (injectCss doc_foreign))"
proof -
  have h0: "head doc_no_head = None" by code_simp
  have t0: "completion (injectCss_try doc_no_head) = Throws null_head" by code_simp
  have m0: "message null_head =
      ''Cannot read properties of null (reading '' @ [CHR 0x27] @ ''querySelectorAll'' @
      [CHR 0x27] @ '')''"
    by code_simp
  have h1: "head doc_foreign = Some [stale_link, foreign_link]" by code_simp
  have f1: "\<not> list_all html (remove_outdated [stale_link, foreign_link])" by code_simp
  have o1: "remove_outdated [stale_link, foreign_link] = [foreign_link]" by code_simp
  have t1: "completion (injectCss_try doc_foreign) = Throws undefined_href" by code_simp
  have m1: "message undefined_href =
      ''Cannot read properties of undefined (reading '' @ [CHR 0x27] @ ''includes'' @
      [CHR 0x27] @ '')''"
    by code_simp
  have h2: "has_window env_browser \<and>
      snd (safeResolve env_browser ''./qore.css'') = Inr ''./qore.css'' \<and>
      snd (safeResolve env_browser ''./variables.css'') = Inr ''./variables.css''"
    by code_simp
  show ?thesis
    using h0 t0 m0 injection_never_raises [of doc_no_head env_browser]
      h1 f1 o1 t1 m1 h2 injection_never_raises [of doc_foreign env_browser]
    by simp
qed

text \<open>
  Claim C6 (one-shot load-failure fallback), as stated: invoking the stored handler a
  second time does not change the address of the link again. The handler function has
  no guard of its own. After a first failure and a new address \<^verbatim>\<open>again.css\<close> on the
  link, the stored function, invoked again, sets the address to \<^verbatim>\<open>qore.css\<close> once
  more.
\<close>

theorem fallback_handler_one_shot_counterexample:
  "completion (injectCss doc_first_load) = Returns (Some (first_link 0)) \<and>
   onerror (first_link 0) = Some (FallbackTo []) \<and>
   fst (run_handler doc_first_load (FallbackTo []) (first_link 0)) =
     (first_link 0)\<lparr> onerror := None, href_attr := Some ''qore.css'' \<rparr> \<and>
   href_attr (fst (run_handler doc_first_load (FallbackTo [])
                ((first_link 0)\<lparr> onerror := None, href_attr := Some ''again.css'' \<rparr>))) =
     Some ''qore.css'' \<and>
   ''qore.css'' \<noteq> ''again.css''"
  by code_simp

text \<open>
  Claim C6, amended. The link that \<^verbatim>\<open>injectCss\<close> creates carries a failure handler.
  Invoked the first time, the handler sets the address of the link to the base path
  followed by \<^verbatim>\<open>qore.css\<close> and sets \<^verbatim>\<open>onerror\<close> to null. A further error event then
  finds \<^verbatim>\<open>onerror\<close> null, calls nothing and leaves the link as it is, whatever its
  address has been set to since. The stored handler function, invoked again, writes the
  same two values on whatever link it finds: straight after the first invocation that
  changes nothing, and in general the address stays as it is exactly when it already is
  the base path followed by \<^verbatim>\<open>qore.css\<close>.
\<close>

theorem fallback_handler_one_shot:
  assumes "head d = Some links" and "list_all html (remove_outdated links)"
    and "hashedLinks d (remove_fallbacks d (remove_outdated links)) = []"
  shows "\<exists>l h. completion (injectCss d) = Returns (Some l) \<and>
           href_attr l = Some (basePath d @ cssFile) \<and> onerror l = Some h \<and>
           href_attr (fst (run_handler d h l)) = Some (basePath d @ ''qore.css'') \<and>
           onerror (fst (run_handler d h l)) = None \<and>
           fst (fire_error d l) = fst (run_handler d h l) \<and>
           (\<forall>a. fst (fire_error d ((fst (run_handler d h l))\<lparr> href_attr := a \<rparr>)) =
                  (fst (run_handler d h l))\<lparr> href_attr := a \<rparr>) \<and>
           fst (run_handler d h (fst (run_handler d h l))) = fst (run_handler d h l) \<and>
           (\<forall>l'. fst (run_handler d h l') =
                   l'\<lparr> onerror := None, href_attr := Some (basePath d @ ''qore.css'') \<rparr>) \<and>
           (\<forall>l'. href_attr (fst (run_handler d h l')) = href_attr l' \<longleftrightarrow>
                   href_attr l' = Some (basePath d @ ''qore.css''))"
  using injectCss_created(2)[OF assms]
  by (auto simp: new_link_def fire_error_def Let_def)

theorem fallback_handler_one_shot_witness:
  "head doc_first_load = Some [] \<and>
   list_all html (remove_outdated []) \<and>
   hashedLinks doc_first_load (remove_fallbacks doc_first_load (remove_outdated [])) = [] \<and>
   completion (injectCss doc_first_load) = Returns (Some (first_link 0)) \<and>
   href_attr (first_link 0) = Some (basePath doc_first_load @ cssFile) \<and>
   onerror (first_link 0) = Some (FallbackTo []) \<and>
   fst (run_handler doc_first_load (FallbackTo []) (first_link 0)) =
     (first_link 0)\<lparr> onerror := None, href_attr := Some ''qore.css'' \<rparr> \<and>
   fst (fire_error doc_first_load (first_link 0)) =
     (first_link 0)\<lparr> onerror := None, href_attr := Some ''qore.css'' \<rparr> \<and>
   fst (fire_error doc_first_load
          ((first_link 0)\<lparr> onerror := None, href_attr := Some ''again.css'' \<rparr>)) =
     (first_link 0)\<lparr> onerror := None, href_attr := Some ''again.css'' \<rparr> \<and>
   fst (run_handler doc_first_load (FallbackTo [])
          ((first_link 0)\<lparr> onerror := None, href_attr := Some ''qore.css'' \<rparr>)) =
     (first_link 0)\<lparr> onerror := None, href_attr := Some ''qore.css'' \<rparr>"
proof -
  have h1: "head doc_first_load = Some []" by code_simp
  have h2: "list_all html (remove_outdated [])" by code_simp
  have h3: "hashedLinks doc_first_load
              (remove_fallbacks doc_first_load (remove_outdated [])) = []"
    by code_simp
  have r: "completion (injectCss doc_first_load) = Returns (Some (first_link 0))"
    by code_simp
  have a: "href_attr (first_link 0) = Some (basePath doc_first_load @ cssFile)"
    "onerror (first_link 0) = Some (FallbackTo [])"
    by code_simp+
  have b: "fst (run_handler doc_first_load (FallbackTo []) (first_link 0)) =
             (first_link 0)\<lparr> onerror := None, href_attr := Some ''qore.css'' \<rparr>"
    "fst (fire_error doc_first_load (first_link 0)) =
       (first_link 0)\<lparr> onerror := None, href_attr := Some ''qore.css'' \<rparr>"
    "fst (fire_error doc_first_load
            ((first_link 0)\<lparr> onerror := None, href_attr := Some ''again.css'' \<rparr>)) =
       (first_link 0)\<lparr> onerror := None, href_attr := Some ''again.css'' \<rparr>"
    "fst (run_handler doc_first_load (FallbackTo [])
            ((first_link 0)\<lparr> onerror := None, href_attr := Some ''qore.css'' \<rparr>)) =
       (first_link 0)\<lparr> onerror := None, href_attr := Some ''qore.css'' \<rparr>"
    by code_simp+
  show ?thesis
    using h1 h2 h3 r a b fallback_handler_one_shot [OF h1 h2 h3] by simp
qed

section \<open>Path resolution\<close>

text \<open>
  Claim C8 (path-resolution failure condition). When the native resolver is
  unavailable or fails, \<^verbatim>\<open>safeResolve\<close> throws exactly when \<^verbatim>\<open>fs\<close> and \<^verbatim>\<open>fs.existsSync\<close>
  are there and the computed fallback path does not exist; the message of the error
  names that path; and without the existence check the computed path is returned.
\<close>

theorem safeResolve_fallback_failure:
  assumes "native_resolve env file = None \<or> (\<exists>e. native_resolve env file = Some (Inl e))"
  shows "((\<exists>e. snd (safeResolve env file) = Inl e) \<longleftrightarrow>
            (\<exists>m ex. fs env = Some m \<and> existsSync m = Some ex \<and> \<not> ex (fallback_path env file))) \<and>
         (\<forall>e. snd (safeResolve env file) = Inl e \<longrightarrow>
            e = Error (''file not found: '' @ fallback_path env file) \<and>
            includes_str (message e) (fallback_path env file)) \<and>
         (fs env = None \<or> (\<exists>m. fs env = Some m \<and> existsSync m = None) \<longrightarrow>
            snd (safeResolve env file) = Inr (fallback_path env file))"
proof -
  have fm: "found_missing env (fallback_path env file) \<longleftrightarrow>
        (\<exists>m ex. fs env = Some m \<and> existsSync m = Some ex \<and> \<not> ex (fallback_path env file))"
    by (auto simp: found_missing_def split: option.splits)
  have r: "snd (safeResolve env file) =
        (if found_missing env (fallback_path env file)
         then Inl (Error (''file not found: '' @ fallback_path env file))
         else Inr (fallback_path env file))"
    using assms by (auto simp: safeResolve_def Let_def)
  have inc: "includes_str (''file not found: '' @ fallback_path env file) (fallback_path env file)"
    unfolding includes_str_def by (rule sublist_append_leftI)
  have c1: "(\<exists>e. snd (safeResolve env file) = Inl e) \<longleftrightarrow>
            (\<exists>m ex. fs env = Some m \<and> existsSync m = Some ex \<and> \<not> ex (fallback_path env file))"
    unfolding fm[symmetric] by (simp add: r)
  have c2: "\<forall>e. snd (safeResolve env file) = Inl e \<longrightarrow>
            e = Error (''file not found: '' @ fallback_path env file) \<and>
            includes_str (message e) (fallback_path env file)"
    using inc by (auto simp: r split: if_splits)
  have c3: "fs env = None \<or> (\<exists>m. fs env = Some m \<and> existsSync m = None) \<longrightarrow>
            snd (safeResolve env file) = Inr (fallback_path env file)"
    by (auto simp: r found_missing_def split: option.splits)
  show ?thesis using c1 c2 c3 by blast
qed

theorem safeResolve_fallback_failure_witness:
  "native_resolve env_no_path ''./variables.css'' = None \<and>
   fallback_path env_no_path ''./variables.css'' = ''./variables.css'' \<and>
   found_missing env_no_path ''./variables.css'' \<and>
   snd (safeResolve env_no_path ''./variables.css'') =
     Inl (Error ''file not found: ./variables.css'') \<and>
   includes_str (message (Error ''file not found: ./variables.css'')) ''./variables.css'' \<and>
   native_resolve env_browser ''./variables.css'' = None \<and>
   \<not> found_missing env_browser ''./variables.css'' \<and>
   snd (safeResolve env_browser ''./variables.css'') = Inr ''./variables.css''"
proof -
  have n: "native_resolve env_no_path ''./variables.css'' = None"
    "native_resolve env_browser ''./variables.css'' = None"
    by code_simp+
  have p: "fallback_path env_no_path ''./variables.css'' = ''./variables.css''"
    by code_simp
  have m: "found_missing env_no_path ''./variables.css''"
    "\<not> found_missing env_browser ''./variables.css''"
    by code_simp+
  have r: "snd (safeResolve env_no_path ''./variables.css'') =
             Inl (Error ''file not found: ./variables.css'')"
    "snd (safeResolve env_browser ''./variables.css'') = Inr ''./variables.css''"
    by code_simp+
  have i: "includes_str (message (Error ''file not found: ./variables.css'')) ''./variables.css''"
    by code_simp
  have h1: "native_resolve env_no_path ''./variables.css'' = None \<or>
           (\<exists>e. native_resolve env_no_path ''./variables.css'' = Some (Inl e))"
    using n(1) by simp
  have h2: "native_resolve env_browser ''./variables.css'' = None \<or>
           (\<exists>e. native_resolve env_browser ''./variables.css'' = Some (Inl e))"
    using n(2) by simp
  show ?thesis
    using n p m r i safeResolve_fallback_failure [OF h1] safeResolve_fallback_failure [OF h2]
    by simp
qed

text \<open>
  Claim C9 (fallback path with unknown module directory), as stated: with the native
  resolver unavailable and \<^verbatim>\<open>__dirname\<close> undefined the relative file path comes back
  unchanged. It fails where a \<^verbatim>\<open>require\<close> without \<^verbatim>\<open>resolve\<close> loads \<^verbatim>\<open>node:path\<close>, whose
  \<^verbatim>\<open>resolve\<close> makes the path absolute against the working directory, and it fails where
  the existence check finds the file missing, where \<^verbatim>\<open>safeResolve\<close> throws.
\<close>

theorem safeResolve_unknown_dir_counterexample:
  "native_resolve env_vm ''./qore.css'' = None \<and> dirname env_vm = None \<and>
   snd (safeResolve env_vm ''./qore.css'') = Inr ''/app/qore.css'' \<and>
   native_resolve env_no_path ''./variables.css'' = None \<and> dirname env_no_path = None \<and>
   snd (safeResolve env_no_path ''./variables.css'') = Inl (Error ''file not found: ./variables.css'')"
  by code_simp

text \<open>
  Claim C9, amended: with the native resolver unavailable, \<^verbatim>\<open>__dirname\<close> undefined, the
  path module being the pass-through fallback (no \<^verbatim>\<open>require\<close>, or \<^verbatim>\<open>node:path\<close> not
  loadable), and the existence check absent or finding the file, \<^verbatim>\<open>safeResolve\<close> joins
  the file against an empty base and returns the relative file path unchanged.
\<close>

theorem safeResolve_unknown_dir:
  assumes "native_resolve env file = None"
    and "dirname env = None"
    and "\<not> has_require env \<or> node_path env = None"
    and "fs env = None \<or> (\<exists>m. fs env = Some m \<and> (existsSync m = None \<or> (\<exists>ex. existsSync m = Some ex \<and> ex file)))"
  shows "baseDir env = [] \<and> fallback_path env file = file \<and>
         snd (safeResolve env file) = Inr file"
proof -
  have b: "baseDir env = []" using assms(2) by (simp add: baseDir_def)
  have p: "fallback_path env file = file"
    using assms(3) by (auto simp: fallback_path_def path_resolve_def)
  have "\<not> found_missing env file"
    using assms(4) by (auto simp: found_missing_def)
  then show ?thesis using assms(1) b p by (simp add: safeResolve_def Let_def)
qed

theorem safeResolve_unknown_dir_witness:
  "native_resolve env_browser ''./qore.css'' = None \<and> dirname env_browser = None \<and>
   \<not> has_require env_browser \<and> fs env_browser = None \<and>
   baseDir env_browser = [] \<and> fallback_path env_browser ''./qore.css'' = ''./qore.css'' \<and>
   snd (safeResolve env_browser ''./qore.css'') = Inr ''./qore.css''"
proof -
  have h1: "native_resolve env_browser ''./qore.css'' = None"
    by code_simp
  have h2: "dirname env_browser = None" by (simp add: env_browser_def)
  have h5: "\<not> has_require env_browser \<and> fs env_browser = None"
    by (simp add: env_browser_def fs_def)
  have h3: "\<not> has_require env_browser \<or> node_path env_browser = None"
    using h5 by simp
  have h4: "fs env_browser = None \<or>
      (\<exists>m. fs env_browser = Some m \<and>
         (existsSync m = None \<or> (\<exists>ex. existsSync m = Some ex \<and> ex ''./qore.css'')))"
    using h5 by simp
  show ?thesis
    using h1 h2 h5 safeResolve_unknown_dir [OF h1 h2 h3 h4] by simp
qed

section \<open>The build orchestrator: facts about the directory\<close>

lemma readFile_writeFile:
  "readFile (writeFile d n c) m = (if m = n then Some c else readFile d m)"
  by (simp add: readFile_def writeFile_def map_add_def delete_conv split: option.splits)

lemma readdir_writeFile:
  "readdir (writeFile d n c) = filter (\<lambda>k. k \<noteq> n) (readdir d) @ [n]"
  by (induction d) (auto simp: readdir_def writeFile_def)

lemma delete_filter: "AList.delete n d = filter (\<lambda>p. fst p \<noteq> n) d"
  by (induction d) auto

lemma cleanup_ok:
  "\<forall>n \<in> set ns. unlink_error env n = None \<or> unlink_error env n = Some ENOENT \<Longrightarrow>
   cleanup env ns d = Inr (filter (\<lambda>p. fst p \<notin> set ns) d)"
proof (induction ns arbitrary: d)
  case Nil
  then show ?case by simp
next
  case (Cons n ns)
  have "unlink_error env n = None \<or> unlink_error env n = Some ENOENT"
    using Cons.prems by simp
  then have step: "cleanup env (n # ns) d = cleanup env ns (AList.delete n d)"
    by (auto simp: unlink_def)
  have "cleanup env ns (AList.delete n d) = Inr (filter (\<lambda>p. fst p \<notin> set ns) (AList.delete n d))"
    using Cons.IH Cons.prems by simp
  then have "cleanup env (n # ns) d = Inr (filter (\<lambda>p. fst p \<notin> set ns) (AList.delete n d))"
    by (simp only: step)
  then show ?case
    by (simp add: delete_filter conj_commute del: cleanup.simps)
qed

lemma cleanup_Inr:
  "cleanup env ns d = Inr d' \<Longrightarrow> d' = filter (\<lambda>p. fst p \<notin> set ns) d"
proof (induction ns arbitrary: d)
  case Nil
  then show ?case by simp
next
  case (Cons n ns)
  have "cleanup env ns (AList.delete n d) = Inr d'"
    using Cons.prems by (auto simp: unlink_def split: option.splits if_splits sum.splits)
  then have "d' = filter (\<lambda>p. fst p \<notin> set ns) (AList.delete n d)"
    by (rule Cons.IH)
  then show ?case by (simp add: delete_filter conj_commute)
qed

lemma cleanup_fail:
  "\<exists>n \<in> set ns. \<exists>e. unlink_error env n = Some e \<and> e \<noteq> ENOENT \<Longrightarrow>
   \<exists>n e. cleanup env ns d = Inl (DeleteFailed n e) \<and> n \<in> set ns \<and>
         unlink_error env n = Some e \<and> e \<noteq> ENOENT"
proof (induction ns arbitrary: d)
  case Nil
  then show ?case by simp
next
  case (Cons n ns)
  show ?case
  proof (cases "\<exists>e. unlink_error env n = Some e \<and> e \<noteq> ENOENT")
    case True
    then show ?thesis by (auto simp: unlink_def)
  next
    case False
    then have step: "cleanup env (n # ns) d = cleanup env ns (AList.delete n d)"
      by (auto simp: unlink_def split: option.splits)
    have "\<exists>n \<in> set ns. \<exists>e. unlink_error env n = Some e \<and> e \<noteq> ENOENT"
      using Cons.prems False by auto
    from Cons.IH[OF this, of "AList.delete n d"] show ?thesis
      unfolding step by auto
  qed
qed

lemma readFile_filter:
  "readFile (filter (\<lambda>p. fst p \<notin> S) d) n = (if n \<in> S then None else readFile d n)"
  by (induction d) (auto simp: readFile_def)

lemma compress_written:
  "readFile d target = Some css \<Longrightarrow>
   compress env d target =
     (case gzip env css of None \<Rightarrow> Inl CompressionFailed
      | Some gz \<Rightarrow> (case brotli env css of None \<Rightarrow> Inl CompressionFailed
          | Some br \<Rightarrow> Inr (writeFile (writeFile d (target @ ''.gz'') gz) (target @ ''.br'') br)))"
  by (simp add: compress_def)


lemma names_distinct:
  "artifact_name h \<noteq> ''index.js''" "artifact_name h \<noteq> ''build.hash''"
  "artifact_name h \<noteq> ''qore.css''"
  "artifact_name h @ ''.gz'' \<noteq> ''index.js''" "artifact_name h @ ''.gz'' \<noteq> ''build.hash''"
  "artifact_name h @ ''.gz'' \<noteq> ''qore.css''"
  "artifact_name h @ ''.br'' \<noteq> ''index.js''" "artifact_name h @ ''.br'' \<noteq> ''build.hash''"
  "artifact_name h @ ''.br'' \<noteq> ''qore.css''"
  "artifact_name h @ ''.gz'' \<noteq> artifact_name h" "artifact_name h @ ''.br'' \<noteq> artifact_name h"
  "artifact_name h @ ''.gz'' \<noteq> artifact_name h @ ''.br''"
  by (simp_all add: artifact_name_def)

lemma readFile_staged:
  "n \<noteq> artifact_name h \<Longrightarrow> n \<noteq> ''build.hash'' \<Longrightarrow> n \<noteq> artifact_name h @ ''.gz'' \<Longrightarrow>
   n \<noteq> artifact_name h @ ''.br'' \<Longrightarrow> readFile (staged d h css gz br) n = readFile d n"
  by (simp add: staged_def readFile_writeFile)

lemma readFile_staged_target: "readFile (staged d h css gz br) (artifact_name h) = Some css"
  using names_distinct[of h] by (simp add: staged_def readFile_writeFile)

lemma build_success:
  assumes "readFile d ''qore.css'' = Some source"
    and "(if offline env then Some source else processor env source) = Some css"
    and "cleanup env (scheduled (artifact_name (hasher env css)) d) d = Inr dA"
    and "gzip env css = Some gz" and "brotli env css = Some br"
    and "readFile dA ''index.js'' = Some moduleSource"
    and "patch moduleSource (hasher env css) = Some updatedSource"
  shows "build env d = Inr (hasher env css,
           writeFile (staged dA (hasher env css) css gz br) ''index.js'' updatedSource)"
proof -
  let ?h = "hasher env css"
  have c: "compress env (writeFile (writeFile dA (artifact_name ?h) css) ''build.hash'' ?h)
             (artifact_name ?h) = Inr (staged dA ?h css gz br)"
    using names_distinct[of ?h] assms(4,5)
    by (simp add: compress_written readFile_writeFile staged_def)
  have m: "readFile (staged dA ?h css gz br) ''index.js'' = Some moduleSource"
    using names_distinct[of ?h] assms(6) by (simp add: readFile_staged)
  show ?thesis
    unfolding build_def Let_def
    by (simp only: assms(1) assms(2) assms(3) c m assms(7) option.case sum.case)
qed

lemma build_InrE:
  assumes "build env d = Inr (h, d')"
  obtains source css dA gz br moduleSource updatedSource where
    "readFile d ''qore.css'' = Some source"
    "(if offline env then Some source else processor env source) = Some css"
    "h = hasher env css"
    "cleanup env (scheduled (artifact_name h) d) d = Inr dA"
    "gzip env css = Some gz" "brotli env css = Some br"
    "readFile dA ''index.js'' = Some moduleSource"
    "patch moduleSource h = Some updatedSource"
    "d' = writeFile (staged dA h css gz br) ''index.js'' updatedSource"
proof -
  obtain source where s: "readFile d ''qore.css'' = Some source"
    using assms by (cases "readFile d ''qore.css''") (simp_all add: build_def)
  obtain css where p: "(if offline env then Some source else processor env source) = Some css"
    using assms s
    by (cases "if offline env then Some source else processor env source")
       (simp_all add: build_def)
  let ?h = "hasher env css"
  let ?t = "artifact_name ?h"
  obtain dA where c: "cleanup env (scheduled ?t d) d = Inr dA"
    using assms s p
    by (cases "cleanup env (scheduled ?t d) d") (simp_all add: build_def Let_def)
  let ?d3 = "writeFile (writeFile dA ?t css) ''build.hash'' ?h"
  have r3: "readFile ?d3 ?t = Some css"
    using names_distinct[of ?h] by (simp add: readFile_writeFile)
  obtain gz where g: "gzip env css = Some gz"
    using assms s p c r3
    by (cases "gzip env css") (simp_all add: build_def Let_def compress_written)
  obtain br where b: "brotli env css = Some br"
    using assms s p c r3 g
    by (cases "brotli env css") (simp_all add: build_def Let_def compress_written)
  have cm: "compress env ?d3 ?t = Inr (staged dA ?h css gz br)"
    using r3 g b by (simp add: compress_written staged_def)
  have rs: "readFile (staged dA ?h css gz br) ''index.js'' = readFile dA ''index.js''"
    using names_distinct[of ?h] by (simp add: readFile_staged)
  obtain moduleSource where m: "readFile dA ''index.js'' = Some moduleSource"
    using assms s p c cm rs
    by (cases "readFile dA ''index.js''") (simp_all add: build_def Let_def)
  obtain updatedSource where u: "patch moduleSource ?h = Some updatedSource"
    using assms s p c cm rs m
    by (cases "patch moduleSource ?h") (simp_all add: build_def Let_def)
  have "build env d = Inr (?h, writeFile (staged dA ?h css gz br) ''index.js'' updatedSource)"
    using build_success[OF s p c g b m u] .
  with assms have "h = ?h" "d' = writeFile (staged dA ?h css gz br) ''index.js'' updatedSource"
    by auto
  with s p c g b m u that show thesis by blast
qed

lemma not_family:
  "\<not> artifact_family ''index.js''" "\<not> artifact_family ''build.hash''"
  "\<not> artifact_family ''qore.css''"
  by (simp_all add: artifact_family_def uncompressed_name_def coreRegex_def strip_prefix_def
      suffix_to_prefix)

lemma coreRegex_artifact_name: "is_hash h \<Longrightarrow> coreRegex (artifact_name h)"
proof -
  assume h: "is_hash h"
  then have hex: "\<forall>c \<in> set h. is_hexlow c" and len: "length h = 8"
    by (simp_all add: is_hash_def list_all_iff)
  have nd: "\<not> is_hexlow CHR ''.''" by (simp add: is_hexlow_def)
  have t: "takeWhile is_hexlow (h @ ''.min.css'') = h"
    using hex nd by (simp add: takeWhile_append2)
  have d: "dropWhile is_hexlow (h @ ''.min.css'') = ''.min.css''"
    using hex nd by (simp add: dropWhile_append2)
  have ne: "h \<noteq> []" using len by auto
  show ?thesis
    using t d ne by (simp add: coreRegex_def strip_prefix_def artifact_name_def)
qed

lemma uncompressed_artifact:
  "uncompressed_name (artifact_name h) = artifact_name h"
  "uncompressed_name (artifact_name h @ ''.gz'') = artifact_name h"
  "uncompressed_name (artifact_name h @ ''.br'') = artifact_name h"
  by (simp_all add: uncompressed_name_def artifact_name_def suffix_to_prefix)

lemma family_artifact:
  assumes "is_hash h"
  shows "artifact_family (artifact_name h)" "artifact_family (artifact_name h @ ''.gz'')"
    "artifact_family (artifact_name h @ ''.br'')"
  using coreRegex_artifact_name[OF assms]
  by (simp_all add: artifact_family_def uncompressed_artifact)

lemma family_files_writeFile:
  "family_files (writeFile d n c) =
     filter (\<lambda>k. k \<noteq> n) (family_files d) @ (if artifact_family n then [n] else [])"
  by (auto simp: family_files_def readdir_writeFile intro: filter_cong)

lemma readdir_filter:
  "readdir (filter (\<lambda>p. fst p \<notin> S) d) = filter (\<lambda>n. n \<notin> S) (readdir d)"
  by (induction d) (auto simp: readdir_def)

lemma family_files_writeFile_fresh:
  "n \<notin> set (family_files d) \<Longrightarrow>
   family_files (writeFile d n c) = family_files d @ (if artifact_family n then [n] else [])"
  by (auto simp: family_files_writeFile filter_id_conv)

lemma family_files_cleaned:
  "filter (\<lambda>k. k \<noteq> t)
     (family_files (filter (\<lambda>p. fst p \<notin> set (scheduled t d)) d)) = []"
proof -
  have "\<And>x. x \<in> set (filter (\<lambda>n. n \<notin> set (scheduled t d)) (readdir d)) \<Longrightarrow>
          artifact_family x \<Longrightarrow> x = t"
    by (auto simp: scheduled_def)
  then show ?thesis
    unfolding family_files_def readdir_filter by (auto simp: filter_empty_conv)
qed

lemma family_files_staged:
  assumes "is_hash h"
  shows "family_files (staged (filter (\<lambda>p. fst p \<notin> set (scheduled (artifact_name h) d)) d) h css gz br)
         = [artifact_name h, artifact_name h @ ''.gz'', artifact_name h @ ''.br'']"
proof -
  let ?t = "artifact_name h"
  let ?dA = "filter (\<lambda>p. fst p \<notin> set (scheduled ?t d)) d"
  let ?d2 = "writeFile ?dA ?t css"
  let ?d3 = "writeFile ?d2 ''build.hash'' h"
  let ?d4 = "writeFile ?d3 (?t @ ''.gz'') gz"
  have 1: "family_files ?d2 = [?t]"
    using family_artifact(1)[OF assms]
    by (simp add: family_files_writeFile family_files_cleaned)
  have 2: "family_files ?d3 = [?t]"
    using family_files_writeFile_fresh[of "''build.hash''" ?d2 h] 1 names_distinct[of h] not_family
    by simp
  have 3: "family_files ?d4 = [?t, ?t @ ''.gz'']"
    using family_files_writeFile_fresh[of "?t @ ''.gz''" ?d3 gz] 2 names_distinct[of h]
      family_artifact(2)[OF assms]
    by simp
  have 4: "family_files (writeFile ?d4 (?t @ ''.br'') br) = [?t, ?t @ ''.gz'', ?t @ ''.br'']"
    using family_files_writeFile_fresh[of "?t @ ''.br''" ?d4 br] 3 names_distinct[of h]
      family_artifact(3)[OF assms]
    by simp
  show ?thesis unfolding staged_def using 4 .
qed

lemma literal_at_artifact: "is_hash h \<Longrightarrow> literal_at (artifact_name h @ rest)"
  by (simp add: literal_at_def artifact_name_def is_hash_def)

lemma patch_again:
  "is_hash h \<Longrightarrow> patch m h = Some u \<Longrightarrow> \<exists>u'. patch u h' = Some u'"
proof (induction m arbitrary: u)
  case Nil
  then show ?case by simp
next
  case (Cons c cs)
  show ?case
  proof (cases "literal_at (c # cs)")
    case True
    then have "u = artifact_name h @ drop 21 (c # cs)" using Cons.prems(2) by simp
    then have "literal_at u" using literal_at_artifact[OF Cons.prems(1)] by simp
    then show ?thesis by (cases u) (auto simp: literal_at_def)
  next
    case False
    then obtain u0 where u0: "patch cs h = Some u0" "u = c # u0"
      using Cons.prems(2) by auto
    from Cons.IH[OF Cons.prems(1) u0(1)] obtain u1 where "patch u0 h' = Some u1" by blast
    then show ?thesis using u0(2) by simp
  qed
qed

lemma scheduled_family: "n \<in> set (scheduled t d) \<Longrightarrow> artifact_family n"
  by (simp add: scheduled_def)

lemma readFile_cleaned:
  "\<not> artifact_family n \<Longrightarrow>
   readFile (filter (\<lambda>p. fst p \<notin> set (scheduled t d)) d) n = readFile d n"
  using scheduled_family[of n t d] by (auto simp: readFile_filter)

section \<open>Build and cleanup\<close>

text \<open>
  Claim C7 (race-tolerant cleanup). With the source read and processed, if every
  deletion that the build attempts either succeeds or fails with not-found, and the
  later steps (compression, the literal in \<^verbatim>\<open>index.js\<close>) do not fail, the build returns
  the new hash and the new hashed artifact is written; and if some scheduled deletion
  fails with another error, the build ends with that deletion failure.
\<close>

theorem cleanup_race_tolerant:
  assumes src: "readFile d ''qore.css'' = Some source"
    and css: "(if offline env then Some source else processor env source) = Some css"
  shows "((\<forall>n \<in> set (scheduled (artifact_name (hasher env css)) d).
             unlink_error env n = None \<or> unlink_error env n = Some ENOENT) \<and>
          gzip env css \<noteq> None \<and> brotli env css \<noteq> None \<and>
          (\<exists>m. readFile d ''index.js'' = Some m \<and> patch m (hasher env css) \<noteq> None) \<longrightarrow>
          (\<exists>d'. build env d = Inr (hasher env css, d') \<and>
                readFile d' (artifact_name (hasher env css)) = Some css)) \<and>
         ((\<exists>n \<in> set (scheduled (artifact_name (hasher env css)) d).
             \<exists>e. unlink_error env n = Some e \<and> e \<noteq> ENOENT) \<longrightarrow>
          (\<exists>n e. build env d = Inl (DeleteFailed n e) \<and>
                n \<in> set (scheduled (artifact_name (hasher env css)) d) \<and>
                unlink_error env n = Some e \<and> e \<noteq> ENOENT))"
proof (intro conjI impI)
  let ?h = "hasher env css"
  let ?t = "artifact_name ?h"
  assume a: "(\<forall>n \<in> set (scheduled ?t d).
             unlink_error env n = None \<or> unlink_error env n = Some ENOENT) \<and>
          gzip env css \<noteq> None \<and> brotli env css \<noteq> None \<and>
          (\<exists>m. readFile d ''index.js'' = Some m \<and> patch m ?h \<noteq> None)"
  let ?dA = "filter (\<lambda>p. fst p \<notin> set (scheduled ?t d)) d"
  have c: "cleanup env (scheduled ?t d) d = Inr ?dA"
    using a by (intro cleanup_ok) blast
  obtain gz br m u where g: "gzip env css = Some gz" and b: "brotli env css = Some br"
    and m: "readFile d ''index.js'' = Some m" and u: "patch m ?h = Some u"
    using a by auto
  have m': "readFile ?dA ''index.js'' = Some m"
    using m not_family(1) by (simp add: readFile_cleaned)
  have "build env d = Inr (?h, writeFile (staged ?dA ?h css gz br) ''index.js'' u)"
    using build_success[OF src css c g b m' u] .
  moreover have "readFile (writeFile (staged ?dA ?h css gz br) ''index.js'' u) ?t = Some css"
    using names_distinct(1)[of ?h] by (simp add: readFile_writeFile readFile_staged_target)
  ultimately show "\<exists>d'. build env d = Inr (?h, d') \<and> readFile d' ?t = Some css"
    by blast
next
  let ?h = "hasher env css"
  let ?t = "artifact_name ?h"
  assume "\<exists>n \<in> set (scheduled ?t d). \<exists>e. unlink_error env n = Some e \<and> e \<noteq> ENOENT"
  from cleanup_fail[OF this, of d] obtain n e where
    f: "cleanup env (scheduled ?t d) d = Inl (DeleteFailed n e)"
    and r: "n \<in> set (scheduled ?t d)" "unlink_error env n = Some e" "e \<noteq> ENOENT"
    by blast
  have "build env d = Inl (DeleteFailed n e)"
    unfolding build_def Let_def
    by (simp only: src css f option.case sum.case)
  with r show "\<exists>n e. build env d = Inl (DeleteFailed n e) \<and> n \<in> set (scheduled ?t d) \<and>
                unlink_error env n = Some e \<and> e \<noteq> ENOENT"
    by blast
qed

theorem cleanup_race_tolerant_witness:
  "readFile dir_seeded ''qore.css'' = Some ''body{}'' \<and>
   scheduled ''core.5c7df4d0.min.css'' dir_seeded =
     [''core.deadbeef.min.css'', ''core.deadbeef.min.css.gz'', ''core.deadbeef.min.css.br''] \<and>
   unlink_error env_offline ''core.deadbeef.min.css'' = Some ENOENT \<and>
   unlink_error env_offline ''core.deadbeef.min.css.gz'' = Some ENOENT \<and>
   unlink_error env_offline ''core.deadbeef.min.css.br'' = Some ENOENT \<and>
   build env_offline dir_seeded = Inr (''5c7df4d0'', dir_built) \<and>
   readFile dir_built ''core.5c7df4d0.min.css'' = Some ''body{}'' \<and>
   unlink_error env_denied ''core.deadbeef.min.css'' = Some EACCES \<and>
   build env_denied dir_seeded = Inl (DeleteFailed ''core.deadbeef.min.css'' EACCES)"
proof -
  have s: "readFile dir_seeded ''qore.css'' = Some ''body{}''" by code_simp
  have p1: "(if offline env_offline then Some ''body{}'' else processor env_offline ''body{}'') =
              Some ''body{}''" by code_simp
  have p2: "(if offline env_denied then Some ''body{}'' else processor env_denied ''body{}'') =
              Some ''body{}''" by code_simp
  have t1: "artifact_name (hasher env_offline ''body{}'') = ''core.5c7df4d0.min.css''"
    by code_simp
  have t2: "artifact_name (hasher env_denied ''body{}'') = ''core.5c7df4d0.min.css''"
    by code_simp
  have sch: "scheduled ''core.5c7df4d0.min.css'' dir_seeded =
     [''core.deadbeef.min.css'', ''core.deadbeef.min.css.gz'', ''core.deadbeef.min.css.br'']"
    by code_simp
  have f1: "unlink_error env_offline ''core.deadbeef.min.css'' = Some ENOENT"
    "unlink_error env_offline ''core.deadbeef.min.css.gz'' = Some ENOENT"
    "unlink_error env_offline ''core.deadbeef.min.css.br'' = Some ENOENT"
    by code_simp+
  have f2: "unlink_error env_denied ''core.deadbeef.min.css'' = Some EACCES" by code_simp
  have c: "gzip env_offline ''body{}'' = Some ''gz:body{}''"
    "brotli env_offline ''body{}'' = Some ''br:body{}''"
    by code_simp+
  have m: "readFile dir_seeded ''index.js'' = Some ''const cssFile = `core.00000000.min.css`;''"
    by code_simp
  have pm: "patch ''const cssFile = `core.00000000.min.css`;'' (hasher env_offline ''body{}'') =
              Some ''const cssFile = `core.5c7df4d0.min.css`;''"
    by code_simp
  have b1: "build env_offline dir_seeded = Inr (''5c7df4d0'', dir_built)" by code_simp
  have b2: "build env_denied dir_seeded = Inl (DeleteFailed ''core.deadbeef.min.css'' EACCES)"
    by code_simp
  have rb: "readFile dir_built ''core.5c7df4d0.min.css'' = Some ''body{}''" by code_simp
  have ok: "(\<forall>n \<in> set (scheduled (artifact_name (hasher env_offline ''body{}'')) dir_seeded).
               unlink_error env_offline n = None \<or> unlink_error env_offline n = Some ENOENT) \<and>
            gzip env_offline ''body{}'' \<noteq> None \<and> brotli env_offline ''body{}'' \<noteq> None \<and>
            (\<exists>m. readFile dir_seeded ''index.js'' = Some m \<and>
                 patch m (hasher env_offline ''body{}'') \<noteq> None)"
    using f1 c m pm by (simp add: t1 sch)
  have bad: "\<exists>n \<in> set (scheduled (artifact_name (hasher env_denied ''body{}'')) dir_seeded).
               \<exists>e. unlink_error env_denied n = Some e \<and> e \<noteq> ENOENT"
    using f2 by (simp add: t2 sch)
  show ?thesis
    using s sch f1 f2 b1 b2 rb ok bad
      cleanup_race_tolerant [OF s p1] cleanup_race_tolerant [OF s p2]
    by simp
qed

text \<open>
  Claim C1 (build idempotence). After a build that returned hash \<open>h\<close>, a second build
  on the directory it left, with the source unchanged and no deletion failing other than
  by not-found, returns the same \<open>h\<close>; afterwards the files of the artifact family are
  exactly the hashed artifact, its gzip and its brotli variant, and the hash record
  holds \<open>h\<close>.
\<close>

theorem build_idempotent:
  assumes first: "build env d = Inr (h, d1)"
    and hash: "is_hash h"
    and faults: "\<forall>n \<in> set (scheduled (artifact_name h) d1).
                   unlink_error env n = None \<or> unlink_error env n = Some ENOENT"
  shows "\<exists>d2. build env d1 = Inr (h, d2) \<and>
           filter artifact_family (readdir d2) =
             [artifact_name h, artifact_name h @ ''.gz'', artifact_name h @ ''.br''] \<and>
           readFile d2 ''build.hash'' = Some h"
proof -
  let ?t = "artifact_name h"
  from first obtain source css dA gz br m u where
    s: "readFile d ''qore.css'' = Some source"
    and p: "(if offline env then Some source else processor env source) = Some css"
    and h: "h = hasher env css"
    and c: "cleanup env (scheduled ?t d) d = Inr dA"
    and g: "gzip env css = Some gz" and b: "brotli env css = Some br"
    and u: "patch m h = Some u"
    and d1: "d1 = writeFile (staged dA h css gz br) ''index.js'' u"
    by (rule build_InrE)
  have dA: "dA = filter (\<lambda>p. fst p \<notin> set (scheduled ?t d)) d"
    using cleanup_Inr[OF c] .
  have s1: "readFile d1 ''qore.css'' = Some source"
    using s names_distinct[of h] not_family(3)
    by (simp add: d1 dA readFile_writeFile readFile_staged readFile_cleaned)
  have m1: "readFile d1 ''index.js'' = Some u"
    by (simp add: d1 readFile_writeFile)
  let ?dB = "filter (\<lambda>p. fst p \<notin> set (scheduled ?t d1)) d1"
  have c1: "cleanup env (scheduled ?t d1) d1 = Inr ?dB"
    using faults by (rule cleanup_ok)
  have mB: "readFile ?dB ''index.js'' = Some u"
    using m1 not_family(1) by (simp add: readFile_cleaned)
  obtain u' where u': "patch u h = Some u'"
    using patch_again[OF hash u] by blast
  have second: "build env d1 = Inr (h, writeFile (staged ?dB h css gz br) ''index.js'' u')"
    using build_success[OF s1 p c1[unfolded h] g b mB[unfolded h] u'[unfolded h]]
    by (simp add: h)
  have "family_files (writeFile (staged ?dB h css gz br) ''index.js'' u') =
          family_files (staged ?dB h css gz br)"
    using family_files_writeFile_fresh[of "''index.js''" "staged ?dB h css gz br" u']
      not_family(1) family_files_staged[OF hash, of d1 css gz br]
      names_distinct(1)[of h, THEN not_sym]
    by simp
  then have fam: "filter artifact_family (readdir (writeFile (staged ?dB h css gz br) ''index.js'' u'))
          = [?t, ?t @ ''.gz'', ?t @ ''.br'']"
    using family_files_staged[OF hash, of d1 css gz br] by (simp add: family_files_def)
  have bh: "readFile (writeFile (staged ?dB h css gz br) ''index.js'' u') ''build.hash'' = Some h"
    using names_distinct[of h] by (simp add: readFile_writeFile staged_def)
  show ?thesis using second fam bh by blast
qed

theorem build_idempotent_witness:
  "build env_offline dir_seeded = Inr (''5c7df4d0'', dir_built) \<and>
   is_hash ''5c7df4d0'' \<and>
   scheduled (artifact_name ''5c7df4d0'') dir_built =
     [''core.5c7df4d0.min.css.gz'', ''core.5c7df4d0.min.css.br''] \<and>
   unlink_error env_offline ''core.5c7df4d0.min.css.gz'' = None \<and>
   unlink_error env_offline ''core.5c7df4d0.min.css.br'' = None \<and>
   build env_offline dir_built = Inr (''5c7df4d0'', dir_built) \<and>
   filter artifact_family (readdir dir_built) =
     [''core.5c7df4d0.min.css'', ''core.5c7df4d0.min.css.gz'', ''core.5c7df4d0.min.css.br''] \<and>
   readFile dir_built ''build.hash'' = Some ''5c7df4d0''"
proof -
  have b1: "build env_offline dir_seeded = Inr (''5c7df4d0'', dir_built)" by code_simp
  have b2: "build env_offline dir_built = Inr (''5c7df4d0'', dir_built)" by code_simp
  have h: "is_hash ''5c7df4d0''" by code_simp
  have sch: "scheduled (artifact_name ''5c7df4d0'') dir_built =
     [''core.5c7df4d0.min.css.gz'', ''core.5c7df4d0.min.css.br'']" by code_simp
  have f: "unlink_error env_offline ''core.5c7df4d0.min.css.gz'' = None"
    "unlink_error env_offline ''core.5c7df4d0.min.css.br'' = None"
    by code_simp+
  have faults: "\<forall>n \<in> set (scheduled (artifact_name ''5c7df4d0'') dir_built).
                  unlink_error env_offline n = None \<or> unlink_error env_offline n = Some ENOENT"
    using f by (simp add: sch)
  have r: "filter artifact_family (readdir dir_built) =
     [''core.5c7df4d0.min.css'', ''core.5c7df4d0.min.css.gz'', ''core.5c7df4d0.min.css.br'']"
    "readFile dir_built ''build.hash'' = Some ''5c7df4d0''"
    by code_simp+
  show ?thesis
    using b1 b2 h sch f r build_idempotent [OF b1 h faults] by simp
qed

end
